theory Spec2Isabelle
  imports Complex_Main "HOL-Library.Word" "HOL-Library.Log_Nat" "HOL-Library.Monad_Syntax"
begin

unbundle bit_operations_syntax

section \<open>Machine numbers\<close>

type_synonym u8 = "8 word"
type_synonym u16 = "16 word"
type_synonym u32 = "32 word"

text \<open>
  A finite C \<open>float\<close> (IEEE-754 binary32) is a rational number. The arithmetic of the
  simulator is modelled on rationals, each operation followed by the binary32 rounding
  \<open>fround\<close> (round to nearest, ties to even, gradual underflow). NaN and the infinities
  are not represented: no operation of the simulator reaches them from finite fields of
  the magnitudes that occur, and overflow beyond \<open>FLT_MAX\<close> is outside the model.
\<close>

type_synonym float32 = rat

definition rne :: "rat \<Rightarrow> int" where
  "rne q = (let f = \<lfloor>q\<rfloor>; r = q - of_int f in
     if r < 1/2 then f else if 1/2 < r then f + 1 else if even f then f else f + 1)"

text \<open>\<open>flog2 x\<close> is the binary exponent of a positive \<open>x\<close>: \<open>2^e \<le> x < 2^(e+1)\<close>.\<close>

definition flog2 :: "rat \<Rightarrow> int" where
  "flog2 x = (if 1 \<le> x then bitlen \<lfloor>x\<rfloor> - 1 else - bitlen (\<lceil>1 / x\<rceil> - 1))"

text \<open>The spacing of binary32 numbers around \<open>x\<close>: 24 significant bits, never finer
  than \<open>2^-149\<close>.\<close>

definition ulp :: "rat \<Rightarrow> rat" where
  "ulp x = 2 powi (max (flog2 \<bar>x\<bar> - 23) (-149))"

definition fround :: "rat \<Rightarrow> float32" where
  "fround x = (if x = 0 then 0 else of_int (rne (x / ulp x)) * ulp x)"

definition fadd :: "float32 \<Rightarrow> float32 \<Rightarrow> float32" where
  "fadd a b = fround (a + b)"

definition fsub :: "float32 \<Rightarrow> float32 \<Rightarrow> float32" where
  "fsub a b = fround (a - b)"

definition fmul :: "float32 \<Rightarrow> float32 \<Rightarrow> float32" where
  "fmul a b = fround (a * b)"

definition fdiv :: "float32 \<Rightarrow> float32 \<Rightarrow> float32" where
  "fdiv a b = fround (a / b)"

text \<open>C conversion of a floating value to an integer type: the fraction is discarded
  (truncation toward zero).\<close>

definition ftrunc :: "float32 \<Rightarrow> int" where
  "ftrunc x = (if 0 \<le> x then \<lfloor>x\<rfloor> else \<lceil>x\<rceil>)"

text \<open>
  When the truncated value does not fit the destination type the C conversion has
  undefined behaviour; the source contains no range check or clamp before any of its
  casts. The model returns \<open>None\<close> there.
\<close>

definition f2u8 :: "float32 \<Rightarrow> u8 option" where
  "f2u8 x = (let t = ftrunc x in if 0 \<le> t \<and> t < 2 ^ 8 then Some (word_of_int t) else None)"

definition f2u16 :: "float32 \<Rightarrow> u16 option" where
  "f2u16 x = (let t = ftrunc x in if 0 \<le> t \<and> t < 2 ^ 16 then Some (word_of_int t) else None)"

definition f2u32 :: "float32 \<Rightarrow> u32 option" where
  "f2u32 x = (let t = ftrunc x in if 0 \<le> t \<and> t < 2 ^ 32 then Some (word_of_int t) else None)"

definition f2int :: "float32 \<Rightarrow> int option" where
  "f2int x = (let t = ftrunc x in if - (2 ^ 31) \<le> t \<and> t < 2 ^ 31 then Some t else None)"

text \<open>Arithmetic on C \<open>int\<close>: signed overflow is undefined behaviour as well.\<close>

definition int_c :: "int \<Rightarrow> int option" where
  "int_c n = (if - (2 ^ 31) \<le> n \<and> n < 2 ^ 31 then Some n else None)"

text \<open>\<open>(x >> 8) & 0xFF\<close> and \<open>x & 0xFF\<close> stored into a byte.\<close>

definition hi_byte :: "u16 \<Rightarrow> u8" where
  "hi_byte x = ucast (drop_bit 8 x AND 0xFF)"

definition lo_byte :: "u16 \<Rightarrow> u8" where
  "lo_byte x = ucast (x AND 0xFF)"

section \<open>Identifiers and diagnostic constants (can_defs.h, obd2_pids.h)\<close>

abbreviation (input) CAN_ID_ENGINE_DATA_2 :: u32 where "CAN_ID_ENGINE_DATA_2 \<equiv> 0x101"
abbreviation (input) CAN_ID_OBD_BROADCAST :: u32 where "CAN_ID_OBD_BROADCAST \<equiv> 0x7DF"
abbreviation (input) CAN_ID_OBD_ECU_ENGINE :: u32 where "CAN_ID_OBD_ECU_ENGINE \<equiv> 0x7E0"
abbreviation (input) CAN_ID_OBD_RESP_ENGINE :: u32 where "CAN_ID_OBD_RESP_ENGINE \<equiv> 0x7E8"

abbreviation (input) OBD2_MODE_CURRENT_DATA :: u8 where "OBD2_MODE_CURRENT_DATA \<equiv> 0x01"
abbreviation (input) OBD2_RESPONSE_OFFSET :: u8 where "OBD2_RESPONSE_OFFSET \<equiv> 0x40"

abbreviation (input) OBD2_PID_SUPPORTED_01_20 :: u8 where "OBD2_PID_SUPPORTED_01_20 \<equiv> 0x00"
abbreviation (input) OBD2_PID_ENGINE_LOAD :: u8 where "OBD2_PID_ENGINE_LOAD \<equiv> 0x04"
abbreviation (input) OBD2_PID_COOLANT_TEMP :: u8 where "OBD2_PID_COOLANT_TEMP \<equiv> 0x05"
abbreviation (input) OBD2_PID_ENGINE_RPM :: u8 where "OBD2_PID_ENGINE_RPM \<equiv> 0x0C"
abbreviation (input) OBD2_PID_VEHICLE_SPEED :: u8 where "OBD2_PID_VEHICLE_SPEED \<equiv> 0x0D"
abbreviation (input) OBD2_PID_INTAKE_TEMP :: u8 where "OBD2_PID_INTAKE_TEMP \<equiv> 0x0F"
abbreviation (input) OBD2_PID_MAF :: u8 where "OBD2_PID_MAF \<equiv> 0x10"
abbreviation (input) OBD2_PID_THROTTLE_POS :: u8 where "OBD2_PID_THROTTLE_POS \<equiv> 0x11"
abbreviation (input) OBD2_PID_SUPPORTED_21_40 :: u8 where "OBD2_PID_SUPPORTED_21_40 \<equiv> 0x20"
abbreviation (input) OBD2_PID_FUEL_LEVEL :: u8 where "OBD2_PID_FUEL_LEVEL \<equiv> 0x2F"

section \<open>Frames and the simulator state (ecu_sim.c)\<close>

text \<open>\<open>struct can_frame\<close>: identifier, length code and the eight payload bytes.\<close>

record can_frame =
  can_id :: u32
  can_dlc :: u8
  data :: "u8 list"

text \<open>The file-scope \<open>vehicle\<close> structure.\<close>

record vehicle_state =
  rpm :: float32
  coolant_temp :: float32
  throttle :: float32
  maf :: float32
  engine_load :: float32
  intake_temp :: float32
  gear :: int
  trans_temp :: float32
  fuel_level :: float32
  odometer :: u32
  vehicle_speed :: float32
  sim_time :: float32

definition vehicle_init :: vehicle_state where
  "vehicle_init = \<lparr> rpm = 800, coolant_temp = 85, throttle = 15, maf = 5,
     engine_load = 20, intake_temp = 25, gear = 0, trans_temp = 60, fuel_level = 75,
     odometer = 45231, vehicle_speed = 0, sim_time = 0 \<rparr>"

text \<open>
  The process state: the vehicle structure and the frames handed to the socket so far,
  oldest first. A failing \<open>write\<close> makes \<open>can_send\<close> return -1, which every caller
  ignores; the model records the frame submitted.
\<close>

record ecu =
  vehicle :: vehicle_state
  sent :: "can_frame list"

definition ecu_init :: ecu where
  "ecu_init = \<lparr> vehicle = vehicle_init, sent = [] \<rparr>"

text \<open>\<open>can_send\<close>: the frame is zeroed, then \<open>len\<close> bytes are copied into it.\<close>

definition can_send :: "ecu \<Rightarrow> u32 \<Rightarrow> u8 list \<Rightarrow> u8 \<Rightarrow> ecu" where
  "can_send w ident bytes len =
     w\<lparr> sent := sent w @
        [\<lparr> can_id = ident, can_dlc = len,
           data = take (unat len) bytes @ replicate (8 - unat len) 0 \<rparr>] \<rparr>"

section \<open>Diagnostic handler\<close>

definition handle_obd2_mode01 :: "ecu \<Rightarrow> u8 \<Rightarrow> ecu option" where
  "handle_obd2_mode01 w pid =
    (let v = vehicle w;
         response = [0, 0, 0, 0, 0, 0, 0, 0 :: u8]
                      [1 := OBD2_MODE_CURRENT_DATA + OBD2_RESPONSE_OFFSET, 2 := pid] in
     do {
       (response, len) \<leftarrow>
         (if pid = OBD2_PID_SUPPORTED_01_20 then
            Some (response[0 := 6, 3 := 0x18, 4 := 0x3E, 5 := 0x80, 6 := 0x00], 7::nat)
          else if pid = OBD2_PID_ENGINE_LOAD then do {
            b \<leftarrow> f2u8 (fdiv (fmul (engine_load v) 255) 100);
            Some (response[0 := 3, 3 := b], 4) }
          else if pid = OBD2_PID_COOLANT_TEMP then do {
            b \<leftarrow> f2u8 (fadd (coolant_temp v) 40);
            Some (response[0 := 3, 3 := b], 4) }
          else if pid = OBD2_PID_ENGINE_RPM then do {
            rpm_raw \<leftarrow> f2u16 (fmul (rpm v) 4);
            Some (response[0 := 4, 3 := hi_byte rpm_raw, 4 := lo_byte rpm_raw], 5) }
          else if pid = OBD2_PID_VEHICLE_SPEED then do {
            b \<leftarrow> f2u8 (vehicle_speed v);
            Some (response[0 := 3, 3 := b], 4) }
          else if pid = OBD2_PID_INTAKE_TEMP then do {
            b \<leftarrow> f2u8 (fadd (intake_temp v) 40);
            Some (response[0 := 3, 3 := b], 4) }
          else if pid = OBD2_PID_MAF then do {
            maf_raw \<leftarrow> f2u16 (fmul (maf v) 100);
            Some (response[0 := 4, 3 := hi_byte maf_raw, 4 := lo_byte maf_raw], 5) }
          else if pid = OBD2_PID_THROTTLE_POS then do {
            b \<leftarrow> f2u8 (fdiv (fmul (throttle v) 255) 100);
            Some (response[0 := 3, 3 := b], 4) }
          else if pid = OBD2_PID_FUEL_LEVEL then do {
            b \<leftarrow> f2u8 (fdiv (fmul (fuel_level v) 255) 100);
            Some (response[0 := 3, 3 := b], 4) }
          else
            Some (response[0 := 3, 1 := 0x7F, 2 := OBD2_MODE_CURRENT_DATA, 3 := 0x12], 4));
       Some (if 0 < len then can_send w CAN_ID_OBD_RESP_ENGINE response (of_nat len) else w)
     })"

text \<open>The request view of a frame: byte 1 is the mode, byte 2 the PID when the frame
  has at least three bytes, and 0 otherwise.\<close>

definition req_mode :: "can_frame \<Rightarrow> u8" where
  "req_mode frame = data frame ! 1"

definition req_pid :: "can_frame \<Rightarrow> u8" where
  "req_pid frame = (if 3 \<le> can_dlc frame then data frame ! 2 else 0)"

definition process_obd2_request :: "ecu \<Rightarrow> can_frame \<Rightarrow> ecu option" where
  "process_obd2_request w frame =
    (if can_id frame \<noteq> CAN_ID_OBD_BROADCAST \<and> can_id frame \<noteq> CAN_ID_OBD_ECU_ENGINE
       then Some w
     else if can_dlc frame < 2 then Some w
     else
       let mode = req_mode frame; pid = req_pid frame in
       if mode = OBD2_MODE_CURRENT_DATA then handle_obd2_mode01 w pid
       else Some w)"

text \<open>A frame as it comes off the socket: eight payload bytes, length code at most 8.\<close>

definition wf_frame :: "can_frame \<Rightarrow> bool" where
  "wf_frame frame \<longleftrightarrow> length (data frame) = 8 \<and> can_dlc frame \<le> 8"

text \<open>The three replies of the handler that do not read the vehicle.\<close>

definition bitmap_frame :: can_frame where
  "bitmap_frame = \<lparr> can_id = CAN_ID_OBD_RESP_ENGINE, can_dlc = 7,
     data = [0x06, 0x41, 0x00, 0x18, 0x3E, 0x80, 0x00, 0x00] \<rparr>"

definition negative_frame :: can_frame where
  "negative_frame = \<lparr> can_id = CAN_ID_OBD_RESP_ENGINE, can_dlc = 4,
     data = [0x03, 0x7F, 0x01, 0x12, 0x00, 0x00, 0x00, 0x00] \<rparr>"

definition rpm_2000_frame :: can_frame where
  "rpm_2000_frame = \<lparr> can_id = CAN_ID_OBD_RESP_ENGINE, can_dlc = 5,
     data = [0x04, 0x41, 0x0C, 0x1F, 0x40, 0x00, 0x00, 0x00] \<rparr>"

section \<open>Vehicle simulation\<close>

text \<open>
  \<open>fmodf\<close> of the C library: the remainder of the division truncated toward zero. Its
  result is exact (it is always a binary32 number when the operands are), so no rounding
  is applied.
\<close>

definition fmodf :: "float32 \<Rightarrow> float32 \<Rightarrow> float32" where
  "fmodf x y = x - of_int (ftrunc (x / y)) * y"

text \<open>
  The C library's \<open>sinf\<close> is a parameter of the model. Decimal literals denote
  the nearest binary32 number: \<open>0.3f\<close> is \<open>fround (3/10)\<close>, \<open>0.2f\<close> is
  \<open>fround (1/5)\<close>, \<open>0.8f\<close> is \<open>fround (4/5)\<close>, \<open>0.05f\<close> is \<open>fround (1/20)\<close>,
  \<open>0.01f\<close> is \<open>fround (1/100)\<close>. Every arithmetic
  operation is rounded to binary32 on its own (no fused multiply-add).

  \<open>driving_pattern\<close> is the four-branch conditional of \<open>update_simulation\<close> (idle,
  accelerating, cruising, decelerating): \<open>t\<close> is the updated \<open>sim_time\<close>, \<open>cycle\<close>
  its position in the 60-second cycle.
\<close>

definition driving_pattern ::
  "(float32 \<Rightarrow> float32) \<Rightarrow> float32 \<Rightarrow> float32 \<Rightarrow> vehicle_state \<Rightarrow> vehicle_state option" where
  "driving_pattern sinf t cycle v =
    (if cycle < 10 then
       Some (v\<lparr> rpm := fadd 800 (fmul 50 (sinf (fmul t 2))),
                throttle := 0,
                vehicle_speed := 0,
                gear := 0 \<rparr>)
     else if cycle < 25 then
       (let accel_progress = fdiv (fsub cycle 10) 15 in do {
          k \<leftarrow> f2int (fmul accel_progress 5);
          g \<leftarrow> int_c (1 + k);
          Some (v\<lparr> rpm := fadd 800 (fmul 4200 accel_progress),
                   throttle := fadd 30 (fmul 50 accel_progress),
                   vehicle_speed := fmul 120 accel_progress,
                   gear := (if 6 < g then 6 else g) \<rparr>) })
     else if cycle < 45 then
       Some (v\<lparr> rpm := fadd 2500 (fmul 200 (sinf (fmul t (1/2)))),
                throttle := fadd 25 (fmul 5 (sinf (fmul t (fround (3/10))))),
                vehicle_speed := fadd 100 (fmul 10 (sinf (fmul t (fround (1/5))))),
                gear := 6 \<rparr>)
     else
       (let decel_progress = fdiv (fsub cycle 45) 15 in do {
          k \<leftarrow> f2int (fmul decel_progress 5);
          g \<leftarrow> int_c (6 - k);
          Some (v\<lparr> rpm := fsub 2500 (fmul 1700 decel_progress),
                   throttle := fmul 25 (fsub 1 decel_progress),
                   vehicle_speed := fmul 100 (fsub 1 decel_progress),
                   gear := (if g < 0 then 0 else g) \<rparr>) }))"

text \<open>The fields derived from throttle, rpm and the clock, in the order of the source.\<close>

definition derived_fields :: "(float32 \<Rightarrow> float32) \<Rightarrow> vehicle_state \<Rightarrow> vehicle_state" where
  "derived_fields sinf v =
    (let t = sim_time v;
         v = v\<lparr> engine_load := fadd (fmul (throttle v) (fround (4/5))) 10 \<rparr>;
         v = v\<lparr> maf := fmul (fmul (fdiv (rpm v) 1000) (fdiv (engine_load v) 100)) 15 \<rparr>;
         v = v\<lparr> coolant_temp := fadd 85 (fmul 10 (sinf (fmul t (fround (1/100))))) \<rparr>;
         v = v\<lparr> trans_temp := fadd 70 (fmul 20 (fdiv (engine_load v) 100)) \<rparr>;
         v = v\<lparr> intake_temp := fadd 25 (fmul 5 (sinf (fmul t (fround (1/20))))) \<rparr>;
         v = v\<lparr> fuel_level := fsub 75 (fmodf (fmul t (fround (1/100))) 50) \<rparr>
     in v)"

definition update_simulation ::
  "(float32 \<Rightarrow> float32) \<Rightarrow> float32 \<Rightarrow> vehicle_state \<Rightarrow> vehicle_state option" where
  "update_simulation sinf dt v0 =
    (let t = fadd (sim_time v0) dt;
         v = v0\<lparr> sim_time := t \<rparr>;
         cycle = fmodf t 60
     in do {
       v \<leftarrow> driving_pattern sinf t cycle v;
       let v = derived_fields sinf v;
       inc \<leftarrow> f2u32 (fdiv (fmul (vehicle_speed v) dt) 3600);
       Some (v\<lparr> odometer := odometer v + inc \<rparr>)
     })"

text \<open>The main loop calls \<open>update_simulation(0.001f)\<close> once per iteration; nothing else
  writes the vehicle structure. \<open>main_ticks sinf n\<close> is the vehicle after \<open>n\<close>
  iterations.\<close>

definition dt_main :: float32 where
  "dt_main = fround (1/1000)"

fun main_ticks :: "(float32 \<Rightarrow> float32) \<Rightarrow> nat \<Rightarrow> vehicle_state option" where
  "main_ticks sinf 0 = Some vehicle_init"
| "main_ticks sinf (Suc n) = main_ticks sinf n \<bind> update_simulation sinf dt_main"

text \<open>The position in the 60-second driving cycle that a vehicle's clock selects.\<close>

definition cycle_of :: "vehicle_state \<Rightarrow> float32" where
  "cycle_of v = fmodf (sim_time v) 60"

text \<open>
  A stand-in for \<open>sinf\<close>, used only to run the model on concrete inputs: argument
  reduction to \<open>[-\<pi>/2, \<pi>/2]\<close> and the Taylor polynomial of degree 13, clipped to
  \<open>[-1, 1]\<close> and rounded to binary32. It agrees with the sine to about six decimal
  places; the general results below hold for every function bounded by 1.
\<close>

definition sin_poly :: "rat \<Rightarrow> rat" where
  "sin_poly x =
    (let tau = 884279719003555 / 140737488355328;
         r = x - of_int \<lfloor>x / tau + 1/2\<rfloor> * tau;
         r = (if tau / 4 < r then tau / 2 - r else if r < - (tau / 4) then - (tau / 2) - r else r);
         r = fround r;
         q = r * r
     in r * (1 - q / 6 * (1 - q / 20 * (1 - q / 42 * (1 - q / 72 *
               (1 - q / 110 * (1 - q / 156)))))))"

definition sinf_approx :: "float32 \<Rightarrow> float32" where
  "sinf_approx x = fround (max (- 1) (min 1 (sin_poly x)))"

section \<open>Broadcast encoders\<close>


definition send_engine_data_2 :: "ecu \<Rightarrow> ecu option" where
  "send_engine_data_2 w =
    (let v = vehicle w; bytes = [0, 0, 0, 0, 0, 0, 0, 0 :: u8] in do {
       b0 \<leftarrow> f2u8 (fadd (intake_temp v) 40);
       b1 \<leftarrow> f2u8 (fdiv (fmul (engine_load v) 255) 100);
       Some (can_send w CAN_ID_ENGINE_DATA_2 (bytes[0 := b0, 1 := b1]) 8)
     })"




section \<open>Signal extraction (can_defs.h)\<close>

text \<open>\<open>(float)n\<close> for an integer \<open>n\<close>.\<close>

definition i2f :: "int \<Rightarrow> float32" where
  "i2f n = fround (of_int n)"













section \<open>Properties of the binary32 rounding\<close>

lemma rne_of_int: "rne (of_int n) = n"
  by (simp add: rne_def)

lemma rne_mono:
  assumes "a \<le> b" shows "rne a \<le> rne b"
proof (cases "\<lfloor>a\<rfloor> = \<lfloor>b\<rfloor>")
  case True
  then show ?thesis using assms by (auto simp: rne_def Let_def)
next
  case False
  then have lt: "\<lfloor>a\<rfloor> < \<lfloor>b\<rfloor>" using assms floor_mono [of a b] by linarith
  have "rne a \<le> \<lfloor>a\<rfloor> + 1" by (auto simp: rne_def Let_def)
  moreover have "\<lfloor>b\<rfloor> \<le> rne b" by (auto simp: rne_def Let_def)
  ultimately show ?thesis using lt by linarith
qed

lemma rne_cases:
  obtains "rne q = \<lfloor>q\<rfloor>" "q - of_int \<lfloor>q\<rfloor> \<le> 1/2"
  | "rne q = \<lfloor>q\<rfloor> + 1" "1/2 \<le> q - of_int \<lfloor>q\<rfloor>"
  unfolding rne_def Let_def by (cases "q - of_int \<lfloor>q\<rfloor> < 1/2"; cases "1/2 < q - of_int \<lfloor>q\<rfloor>"; cases "even \<lfloor>q\<rfloor>"; simp)

lemma rne_error: "\<bar>of_int (rne q) - q\<bar> \<le> 1/2"
proof -
  have fl: "of_int \<lfloor>q\<rfloor> \<le> q" "q < of_int \<lfloor>q\<rfloor> + 1" by linarith+
  show ?thesis
  proof (cases q rule: rne_cases)
    case 1
    then show ?thesis using fl by simp
  next
    case 2
    then show ?thesis using fl by simp
  qed
qed

lemma floor_minus_nonint:
  assumes "q \<notin> \<int>" shows "\<lfloor>- q\<rfloor> = - \<lfloor>q\<rfloor> - 1"
proof -
  have "of_int \<lfloor>q\<rfloor> \<noteq> q" using assms by (metis Ints_of_int)
  moreover have "of_int \<lfloor>q\<rfloor> \<le> q" "q < of_int \<lfloor>q\<rfloor> + 1" by linarith+
  ultimately have "of_int \<lfloor>q\<rfloor> < q" "q < of_int \<lfloor>q\<rfloor> + 1" by linarith+
  then have "of_int (- \<lfloor>q\<rfloor> - 1) \<le> - q" "- q < of_int (- \<lfloor>q\<rfloor> - 1) + 1"
    by simp_all
  then show ?thesis by (simp only: floor_unique)
qed

lemma rne_minus: "rne (- q) = - rne q"
proof (cases "q \<in> \<int>")
  case True
  then obtain n where "q = of_int n" by (auto elim: Ints_cases)
  then show ?thesis using rne_of_int [of n] rne_of_int [of "- n"] by simp
next
  case False
  note fl = floor_minus_nonint [OF False]
  have r: "- q - of_int \<lfloor>- q\<rfloor> = 1 - (q - of_int \<lfloor>q\<rfloor>)" by (simp add: fl)
  show ?thesis
    unfolding rne_def Let_def r unfolding fl
    by (cases "q - of_int \<lfloor>q\<rfloor> < 1/2"; cases "1/2 < q - of_int \<lfloor>q\<rfloor>"; cases "even \<lfloor>q\<rfloor>"; simp)
qed

lemma flog2_bounds:
  assumes "0 < x"
  shows "2 powi (flog2 x) \<le> x" and "x < 2 powi (flog2 x + 1)"
proof -
  have "2 powi (flog2 x) \<le> x \<and> x < 2 powi (flog2 x + 1)"
  proof (cases "1 \<le> x")
    case True
    define n where "n = \<lfloor>x\<rfloor>"
    have n: "0 < n" "of_int n \<le> x" "x < of_int n + 1" using True by (auto simp: n_def) linarith+
    have b: "2 ^ nat (bitlen n - 1) \<le> n" "n < 2 ^ nat (bitlen n)"
      using bitlen_bounds [OF n(1)] by auto
    have bl: "1 \<le> bitlen n" using n(1) by (simp add: bitlen_alt_def)
    have e: "flog2 x = bitlen n - 1" using True by (simp add: flog2_def n_def)
    have "(2::rat) powi (bitlen n - 1) = of_int (2 ^ nat (bitlen n - 1))"
      using bl by (simp add: power_int_nonneg_exp)
    also have "\<dots> \<le> of_int n" using b(1) by (simp only: of_int_le_iff)
    finally have lo: "(2::rat) powi (bitlen n - 1) \<le> x" using n(2) by linarith
    have "n + 1 \<le> 2 ^ nat (bitlen n)" using b(2) by linarith
    then have "(of_int (n + 1) :: rat) \<le> of_int (2 ^ nat (bitlen n))" by (simp only: of_int_le_iff)
    also have "\<dots> = 2 powi (bitlen n)" using bl by (simp add: power_int_nonneg_exp)
    finally have hi: "x < 2 powi (bitlen n)" using n(3) by simp
    show ?thesis using lo hi e by simp
  next
    case False
    define y where "y = 1 / x"
    define m where "m = \<lceil>y\<rceil>"
    have y: "1 < y" using False assms by (simp add: y_def)
    have m: "1 < m" "of_int m - 1 < y" "y \<le> of_int m" using y by (auto simp: m_def) linarith+
    define c where "c = bitlen (m - 1)"
    have b: "2 ^ nat (c - 1) \<le> m - 1" "m - 1 < 2 ^ nat c"
      using bitlen_bounds [of "m - 1"] m(1) by (auto simp: c_def)
    have c1: "1 \<le> c" using m(1) by (simp add: bitlen_alt_def c_def)
    have e: "flog2 x = - c" using False by (simp add: flog2_def c_def m_def y_def)
    have "(2::rat) powi (c - 1) = of_int (2 ^ nat (c - 1))"
      using c1 by (simp add: power_int_nonneg_exp)
    also have "\<dots> \<le> of_int (m - 1)" using b(1) by (simp only: of_int_le_iff)
    finally have ylo: "(2::rat) powi (c - 1) < y" using m(2) by simp
    have "m \<le> 2 ^ nat c" using b(2) by linarith
    then have "(of_int m :: rat) \<le> of_int (2 ^ nat c)" by (simp only: of_int_le_iff)
    also have "\<dots> = 2 powi c" using c1 by (simp add: power_int_nonneg_exp)
    finally have yhi: "y \<le> 2 powi c" using m(3) by linarith
    have p1: "(0::rat) < 2 powi c" "(0::rat) < 2 powi (c - 1)" by simp_all
    have x: "x = 1 / y" using assms by (simp add: y_def)
    have "2 powi (- c) \<le> x"
      unfolding x power_int_minus_divide using yhi y p1 by (simp add: frac_le)
    moreover have "x < 2 powi (- (c - 1))"
      unfolding x power_int_minus_divide using ylo p1 by (simp add: frac_less2)
    ultimately show ?thesis using e by simp
  qed
  then show "2 powi (flog2 x) \<le> x" and "x < 2 powi (flog2 x + 1)" by simp_all
qed


lemma powi2_less_D:
  assumes "(2::rat) powi a < 2 powi b" shows "a < b"
proof (rule ccontr)
  assume "\<not> a < b"
  then have "(2::rat) powi b \<le> 2 powi a" by (intro power_int_increasing) simp_all
  then show False using assms by linarith
qed

lemma flog2_unique:
  assumes "0 < x" "2 powi e \<le> x" "x < 2 powi (e + 1)"
  shows "flog2 x = e"
proof (rule ccontr)
  assume ne: "flog2 x \<noteq> e"
  note b = flog2_bounds [OF assms(1)]
  show False
  proof (cases "flog2 x < e")
    case True
    then have "(2::rat) powi (flog2 x + 1) \<le> 2 powi e"
      by (intro power_int_increasing) simp_all
    then show False using b(2) assms(2) by linarith
  next
    case False
    then have "e + 1 \<le> flog2 x" using ne by linarith
    then have "(2::rat) powi (e + 1) \<le> 2 powi (flog2 x)"
      by (intro power_int_increasing) simp_all
    then show False using b(1) assms(3) by linarith
  qed
qed

lemma flog2_mono:
  assumes "0 < x" "x \<le> y"
  shows "flog2 x \<le> flog2 y"
proof (rule ccontr)
  assume "\<not> flog2 x \<le> flog2 y"
  then have "flog2 y + 1 \<le> flog2 x" by linarith
  then have "(2::rat) powi (flog2 y + 1) \<le> 2 powi (flog2 x)"
    by (intro power_int_increasing) simp_all
  moreover have "0 < y" using assms by linarith
  ultimately show False
    using flog2_bounds(1) [OF assms(1)] flog2_bounds(2) [of y] assms(2) by linarith
qed

lemma ulp_pos: "0 < ulp x"
  by (simp add: ulp_def)

lemma ulp_minus: "ulp (- x) = ulp x"
  by (simp add: ulp_def)

lemma fround_minus: "fround (- x) = - fround x"
  by (simp add: fround_def ulp_minus rne_minus)

lemma fround_0: "fround 0 = 0"
  by (simp add: fround_def)

lemma fround_nonneg:
  assumes "0 \<le> x" shows "0 \<le> fround x"
proof -
  have "0 \<le> x / ulp x" using assms ulp_pos [of x] by simp
  then have "rne 0 \<le> rne (x / ulp x)" by (rule rne_mono)
  then have "0 \<le> rne (x / ulp x)" using rne_of_int [of 0] by simp
  then show ?thesis using ulp_pos [of x] by (simp add: fround_def)
qed

lemma fround_mono_pos:
  assumes "0 < x" "x \<le> y"
  shows "fround x \<le> fround y"
proof -
  have ypos: "0 < y" using assms by linarith
  define ex where "ex = max (flog2 x - 23) (-149)"
  define ey where "ey = max (flog2 y - 23) (-149)"
  have ux: "ulp x = 2 powi ex" using assms(1) by (simp add: ulp_def ex_def)
  have uy: "ulp y = 2 powi ey" using ypos by (simp add: ulp_def ey_def)
  have fx: "fround x = of_int (rne (x / 2 powi ex)) * 2 powi ex"
    using assms(1) by (simp add: fround_def ux)
  have fy: "fround y = of_int (rne (y / 2 powi ey)) * 2 powi ey"
    using ypos by (simp add: fround_def uy)
  have le: "ex \<le> ey" using flog2_mono [OF assms] by (simp add: ex_def ey_def)
  show ?thesis
  proof (cases "ex = ey")
    case True
    have "x / 2 powi ey \<le> y / 2 powi ey" using assms(2) by (simp add: divide_right_mono)
    then have "rne (x / 2 powi ey) \<le> rne (y / 2 powi ey)" by (rule rne_mono)
    then have "(of_int (rne (x / 2 powi ey)) :: rat) \<le> of_int (rne (y / 2 powi ey))"
      by (simp only: of_int_le_iff)
    then show ?thesis unfolding fx fy True by (simp add: mult_right_mono)
  next
    case False
    then have lt: "ex < ey" using le by linarith
    then have ey: "ey = flog2 y - 23" and ey149: "- 149 < ey" by (auto simp: ey_def ex_def)
    define B :: rat where "B = 2 powi (flog2 y)"
    have fl: "flog2 x < flog2 y" using lt ey by (simp add: ex_def)
    have "x < 2 powi (flog2 x + 1)" by (rule flog2_bounds(2) [OF assms(1)])
    also have "\<dots> \<le> B" unfolding B_def using fl by (intro power_int_increasing) simp_all
    finally have xB: "x < B" .
    have By: "B \<le> y" unfolding B_def by (rule flog2_bounds(1) [OF ypos])
    \<comment> \<open>the boundary is on both grids\<close>
    have k: "0 \<le> flog2 y - ex" using lt ey by linarith
    have Bx: "B / 2 powi ex = of_int (2 ^ nat (flog2 y - ex))"
      unfolding B_def using k by (simp add: power_int_diff [symmetric] power_int_nonneg_exp)
    have By': "B / 2 powi ey = of_int (2 ^ 23)"
      unfolding B_def ey by (simp add: power_int_diff [symmetric])
    have "x / 2 powi ex \<le> B / 2 powi ex" using xB by (simp add: divide_right_mono)
    then have "rne (x / 2 powi ex) \<le> rne (B / 2 powi ex)" by (rule rne_mono)
    then have "rne (x / 2 powi ex) \<le> 2 ^ nat (flog2 y - ex)"
      unfolding Bx rne_of_int .
    then have "(of_int (rne (x / 2 powi ex)) :: rat) \<le> of_int (2 ^ nat (flog2 y - ex))"
      by (simp only: of_int_le_iff)
    then have "fround x \<le> of_int (2 ^ nat (flog2 y - ex)) * 2 powi ex"
      unfolding fx by (simp add: mult_right_mono)
    also have "\<dots> = B" using Bx by (simp add: field_simps)
    finally have 1: "fround x \<le> B" .
    have "B / 2 powi ey \<le> y / 2 powi ey" using By by (simp add: divide_right_mono)
    then have "rne (B / 2 powi ey) \<le> rne (y / 2 powi ey)" by (rule rne_mono)
    then have "2 ^ 23 \<le> rne (y / 2 powi ey)"
      unfolding By' rne_of_int .
    then have "(of_int (2 ^ 23) :: rat) \<le> of_int (rne (y / 2 powi ey))"
      by (simp only: of_int_le_iff)
    then have "of_int (2 ^ 23) * 2 powi ey \<le> fround y"
      unfolding fy by (simp add: mult_right_mono)
    moreover have "of_int (2 ^ 23) * 2 powi ey = B" using By' by (simp add: field_simps)
    ultimately have 2: "B \<le> fround y" by simp
    show ?thesis using 1 2 by linarith
  qed
qed

lemma fround_mono:
  assumes "x \<le> y" shows "fround x \<le> fround y"
proof -
  consider "0 < x" | "x \<le> 0" "0 \<le> y" | "y < 0" by linarith
  then show ?thesis
  proof cases
    case 1
    then show ?thesis using assms by (rule fround_mono_pos)
  next
    case 2
    have "fround x \<le> 0" using fround_nonneg [of "- x"] 2(1) by (simp add: fround_minus)
    moreover have "0 \<le> fround y" using 2(2) by (rule fround_nonneg)
    ultimately show ?thesis by linarith
  next
    case 3
    then have "0 < - y" "- y \<le> - x" using assms by simp_all
    then have "fround (- y) \<le> fround (- x)" by (rule fround_mono_pos)
    then show ?thesis by (simp add: fround_minus)
  qed
qed

lemma fround_grid:
  assumes "\<bar>n\<bar> < 2 ^ 24" "- 149 \<le> e"
  shows "fround (of_int n * 2 powi e) = of_int n * 2 powi e"
proof (cases "n = 0")
  case True
  then show ?thesis by (simp add: fround_0)
next
  case False
  define x :: rat where "x = of_int n * 2 powi e"
  have x0: "x \<noteq> 0" using False by (simp add: x_def)
  have ax: "\<bar>x\<bar> = of_int \<bar>n\<bar> * 2 powi e" by (simp add: x_def abs_mult)
  have "of_int \<bar>n\<bar> < (of_int (2 ^ 24) :: rat)" using assms(1) by (simp only: of_int_less_iff)
  then have "\<bar>x\<bar> < 2 ^ 24 * 2 powi e" unfolding ax by simp
  also have "\<dots> = 2 powi (24 + e)" by (simp add: power_int_add)
  finally have up: "\<bar>x\<bar> < 2 powi (24 + e)" .
  have "2 powi (flog2 \<bar>x\<bar>) \<le> \<bar>x\<bar>" using x0 by (intro flog2_bounds(1)) simp
  then have "(2::rat) powi (flog2 \<bar>x\<bar>) < 2 powi (24 + e)" using up by linarith
  then have "flog2 \<bar>x\<bar> < 24 + e" by (rule powi2_less_D)
  define u where "u = max (flog2 \<bar>x\<bar> - 23) (-149)"
  have ue: "u \<le> e" using \<open>flog2 \<bar>x\<bar> < 24 + e\<close> assms(2) by (simp add: u_def)
  have ulp: "ulp x = 2 powi u" by (simp add: ulp_def u_def)
  have "x / 2 powi u = of_int n * 2 powi (e - u)"
    by (simp add: x_def power_int_diff)
  also have "\<dots> = of_int (n * 2 ^ nat (e - u))"
    using ue by (simp add: power_int_nonneg_exp)
  finally have q: "x / 2 powi u = of_int (n * 2 ^ nat (e - u))" .
  have "fround x = of_int (rne (x / 2 powi u)) * 2 powi u"
    using x0 by (simp add: fround_def ulp)
  also have "\<dots> = (x / 2 powi u) * 2 powi u"
    unfolding q rne_of_int ..
  also have "\<dots> = x" by simp
  finally show ?thesis by (simp add: x_def)
qed

lemma fround_of_int:
  assumes "\<bar>n\<bar> < 2 ^ 24" shows "fround (of_int n) = of_int n"
  using fround_grid [OF assms, of 0] by simp

lemma fround_error: "\<bar>fround x - x\<bar> \<le> ulp x / 2"
proof (cases "x = 0")
  case True
  then show ?thesis using ulp_pos [of 0] by (simp add: fround_0)
next
  case False
  have "fround x - x = (of_int (rne (x / ulp x)) - x / ulp x) * ulp x"
    using False ulp_pos [of x] by (simp add: fround_def left_diff_distrib)
  then have "\<bar>fround x - x\<bar> = \<bar>of_int (rne (x / ulp x)) - x / ulp x\<bar> * ulp x"
    using ulp_pos [of x] by (simp add: abs_mult)
  also have "\<dots> \<le> 1/2 * ulp x"
    using rne_error [of "x / ulp x"] ulp_pos [of x] by (intro mult_right_mono) simp_all
  finally show ?thesis by simp
qed

lemma ulp_le:
  assumes "\<bar>x\<bar> < 2 powi (e + 1)" "x \<noteq> 0"
  shows "ulp x \<le> 2 powi (max (e - 23) (-149))"
proof -
  have "2 powi (flog2 \<bar>x\<bar>) \<le> \<bar>x\<bar>" using assms(2) by (intro flog2_bounds(1)) simp
  then have "(2::rat) powi (flog2 \<bar>x\<bar>) < 2 powi (e + 1)" using assms(1) by linarith
  then have "flog2 \<bar>x\<bar> < e + 1" by (rule powi2_less_D)
  then have "max (flog2 \<bar>x\<bar> - 23) (-149) \<le> max (e - 23) (-149)" by simp
  then show ?thesis unfolding ulp_def by (intro power_int_increasing) simp_all
qed

section \<open>Results on the diagnostic handler\<close>

lemma replicate_num: "replicate (numeral k) x = x # replicate (pred_numeral k) x"
  by (simp add: numeral_eq_Suc)

lemma fround_8000: "fround 8000 = 8000"
  by code_simp

lemma handle_rpm_2000:
  assumes "rpm (vehicle w) = 2000"
  shows "handle_obd2_mode01 w OBD2_PID_ENGINE_RPM = Some (w\<lparr> sent := sent w @ [rpm_2000_frame] \<rparr>)"
proof -
  have raw: "f2u16 (fmul (rpm (vehicle w)) 4) = Some 8000"
    using assms by (simp add: fmul_def fround_8000 f2u16_def ftrunc_def)
  have hi: "hi_byte (8000 :: u16) = 0x1F" and lo: "lo_byte (8000 :: u16) = 0x40"
    by (simp_all add: hi_byte_def lo_byte_def)
  show ?thesis
    by (simp add: handle_obd2_mode01_def raw hi lo can_send_def rpm_2000_frame_def replicate_num)
qed

lemma handle_bitmap:
  "handle_obd2_mode01 w OBD2_PID_SUPPORTED_01_20 = Some (w\<lparr> sent := sent w @ [bitmap_frame] \<rparr>)"
  by (simp add: handle_obd2_mode01_def can_send_def bitmap_frame_def replicate_num)

lemma handle_negative:
  assumes "pid \<notin> {0x00, 0x04, 0x05, 0x0C, 0x0D, 0x0F, 0x10, 0x11, 0x2F}"
  shows "handle_obd2_mode01 w pid = Some (w\<lparr> sent := sent w @ [negative_frame] \<rparr>)"
  using assms
  by (simp add: handle_obd2_mode01_def can_send_def negative_frame_def replicate_num)

lemma process_mode01:
  assumes "can_id frame = CAN_ID_OBD_BROADCAST \<or> can_id frame = CAN_ID_OBD_ECU_ENGINE"
    and "2 \<le> can_dlc frame" and "req_mode frame = OBD2_MODE_CURRENT_DATA"
  shows "process_obd2_request w frame = handle_obd2_mode01 w (req_pid frame)"
  using assms by (auto simp: process_obd2_request_def Let_def not_less [symmetric])

lemma process_dropped:
  assumes "can_dlc frame < 2 \<or> req_mode frame \<noteq> OBD2_MODE_CURRENT_DATA"
  shows "process_obd2_request w frame = Some w"
  using assms by (auto simp: process_obd2_request_def Let_def)

lemma process_reply_only_mode01:
  assumes "process_obd2_request w frame \<noteq> Some w"
  shows "(can_id frame = CAN_ID_OBD_BROADCAST \<or> can_id frame = CAN_ID_OBD_ECU_ENGINE)
    \<and> 2 \<le> can_dlc frame \<and> req_mode frame = OBD2_MODE_CURRENT_DATA"
  using assms by (auto simp: process_obd2_request_def Let_def split: if_splits)

subsection \<open>Claims on the diagnostic dispatch\<close>

text \<open>
  C1. A Mode 01 request for PID 0x0C, received on identifier 0x7DF or 0x7E0 with at
  least two payload bytes, against a vehicle whose rpm is 2000.0, makes the handler send
  exactly one frame, on identifier 0x7E8, with payload 04 41 0C 1F 40 (raw value
  2000 * 4 = 8000 = 0x1F40, high byte first). The PID of a request is the one the code
  decodes: byte 2 of a frame of at least three bytes.
\<close>

theorem C1_rpm_request_reply:
  assumes "can_id frame = CAN_ID_OBD_BROADCAST \<or> can_id frame = CAN_ID_OBD_ECU_ENGINE"
    and "2 \<le> can_dlc frame"
    and "req_mode frame = OBD2_MODE_CURRENT_DATA"
    and "req_pid frame = OBD2_PID_ENGINE_RPM"
    and "rpm (vehicle w) = 2000"
  shows "process_obd2_request w frame =
    Some (w\<lparr> sent := sent w @
      [\<lparr> can_id = 0x7E8, can_dlc = 5,
         data = [0x04, 0x41, 0x0C, 0x1F, 0x40, 0x00, 0x00, 0x00] \<rparr>] \<rparr>)"
  using assms process_mode01 [of frame w] handle_rpm_2000 [of w]
  by (simp add: rpm_2000_frame_def)

theorem C1_rpm_request_reply_witness:
  "process_obd2_request (ecu_init\<lparr> vehicle := vehicle_init\<lparr> rpm := 2000 \<rparr> \<rparr>)
     \<lparr> can_id = 0x7DF, can_dlc = 8, data = [0x02, 0x01, 0x0C, 0, 0, 0, 0, 0] \<rparr>
   = Some \<lparr> vehicle = vehicle_init\<lparr> rpm := 2000 \<rparr>,
            sent = [\<lparr> can_id = 0x7E8, can_dlc = 5,
                      data = [0x04, 0x41, 0x0C, 0x1F, 0x40, 0x00, 0x00, 0x00] \<rparr>] \<rparr>"
  using C1_rpm_request_reply
    [of "\<lparr> can_id = 0x7DF, can_dlc = 8, data = [0x02, 0x01, 0x0C, 0, 0, 0, 0, 0] \<rparr>"
        "ecu_init\<lparr> vehicle := vehicle_init\<lparr> rpm := 2000 \<rparr> \<rparr>"]
  by (simp add: req_mode_def req_pid_def ecu_init_def)

text \<open>
  C2. A Mode 01 request whose PID is neither 0x00 nor one of the eight telemetry PIDs
  of the simulator (04, 05, 0C, 0D, 0F, 10, 11, 2F) is answered, whatever the vehicle
  state, with one frame on identifier 0x7E8 whose payload begins 03 7F 01 12.
\<close>

theorem C2_unsupported_pid_negative:
  assumes "can_id frame = CAN_ID_OBD_BROADCAST \<or> can_id frame = CAN_ID_OBD_ECU_ENGINE"
    and "2 \<le> can_dlc frame"
    and "req_mode frame = OBD2_MODE_CURRENT_DATA"
    and "req_pid frame \<notin> {0x00, 0x04, 0x05, 0x0C, 0x0D, 0x0F, 0x10, 0x11, 0x2F}"
  shows "process_obd2_request w frame =
    Some (w\<lparr> sent := sent w @
      [\<lparr> can_id = 0x7E8, can_dlc = 4,
         data = [0x03, 0x7F, 0x01, 0x12, 0x00, 0x00, 0x00, 0x00] \<rparr>] \<rparr>)"
  using assms process_mode01 [of frame w] handle_negative [of "req_pid frame" w]
  by (simp add: negative_frame_def)

theorem C2_unsupported_pid_negative_witness:
  "process_obd2_request ecu_init
     \<lparr> can_id = 0x7E0, can_dlc = 3, data = [0x02, 0x01, 0xFF, 0, 0, 0, 0, 0] \<rparr>
   = Some \<lparr> vehicle = vehicle_init,
            sent = [\<lparr> can_id = 0x7E8, can_dlc = 4,
                      data = [0x03, 0x7F, 0x01, 0x12, 0x00, 0x00, 0x00, 0x00] \<rparr>] \<rparr>"
  using C2_unsupported_pid_negative
    [of "\<lparr> can_id = 0x7E0, can_dlc = 3, data = [0x02, 0x01, 0xFF, 0, 0, 0, 0, 0] \<rparr>"
        ecu_init]
  by (simp add: req_mode_def req_pid_def ecu_init_def)

text \<open>
  C3, as stated: PID 0x00 and likewise PID 0x20 are answered with the fixed bitmap
  response. The handler has no case for PID 0x20: at the initial state the reply to
  PID 0x20 is the negative response, not a positive response carrying a bitmap.
\<close>

theorem C3_pid_0x20_counterexample:
  "handle_obd2_mode01 ecu_init OBD2_PID_SUPPORTED_21_40
     = Some (ecu_init\<lparr> sent :=
         [\<lparr> can_id = 0x7E8, can_dlc = 4,
            data = [0x03, 0x7F, 0x01, 0x12, 0x00, 0x00, 0x00, 0x00] \<rparr>] \<rparr>)
   \<and> handle_obd2_mode01 ecu_init OBD2_PID_SUPPORTED_21_40
     \<noteq> Some (ecu_init\<lparr> sent :=
         [\<lparr> can_id = 0x7E8, can_dlc = 7,
            data = [0x06, 0x41, 0x20, 0x18, 0x3E, 0x80, 0x00, 0x00] \<rparr>] \<rparr>)"
  using handle_negative [of OBD2_PID_SUPPORTED_21_40 ecu_init]
  by (simp add: negative_frame_def ecu_init_def)

text \<open>
  C3, amended: for every state, PID 0x00 is answered with the fixed bitmap payload
  06 41 00 18 3E 80 00 and PID 0x20 with the fixed negative response 03 7F 01 12; neither
  reply depends on any field of the vehicle state, and the state is left as it was.
\<close>

theorem C3_bitmap_fixed:
  "handle_obd2_mode01 w OBD2_PID_SUPPORTED_01_20 =
     Some (w\<lparr> sent := sent w @
       [\<lparr> can_id = 0x7E8, can_dlc = 7,
          data = [0x06, 0x41, 0x00, 0x18, 0x3E, 0x80, 0x00, 0x00] \<rparr>] \<rparr>)
   \<and> handle_obd2_mode01 w OBD2_PID_SUPPORTED_21_40 =
     Some (w\<lparr> sent := sent w @
       [\<lparr> can_id = 0x7E8, can_dlc = 4,
          data = [0x03, 0x7F, 0x01, 0x12, 0x00, 0x00, 0x00, 0x00] \<rparr>] \<rparr>)"
  using handle_bitmap [of w] handle_negative [of OBD2_PID_SUPPORTED_21_40 w]
  by (simp add: bitmap_frame_def negative_frame_def)

text \<open>
  C7. A frame with fewer than two payload bytes, or with a mode other than 0x01, gets no
  reply and leaves the state as it was; whenever the handler does anything at all, the
  frame was a Mode 01 request of at least two bytes on identifier 0x7DF or 0x7E0.
\<close>

theorem C7_invalid_request_dropped:
  "(can_dlc frame < 2 \<or> req_mode frame \<noteq> OBD2_MODE_CURRENT_DATA
      \<longrightarrow> process_obd2_request w frame = Some w)
   \<and> (process_obd2_request w frame \<noteq> Some w
      \<longrightarrow> (can_id frame = CAN_ID_OBD_BROADCAST \<or> can_id frame = CAN_ID_OBD_ECU_ENGINE)
        \<and> 2 \<le> can_dlc frame \<and> req_mode frame = OBD2_MODE_CURRENT_DATA)"
  using process_dropped [of frame w] process_reply_only_mode01 [of w frame] by blast

theorem C7_invalid_request_dropped_witness:
  "process_obd2_request ecu_init
     \<lparr> can_id = 0x7DF, can_dlc = 1, data = [0x01, 0x01, 0x0C, 0, 0, 0, 0, 0] \<rparr> = Some ecu_init
   \<and> process_obd2_request ecu_init
     \<lparr> can_id = 0x7DF, can_dlc = 3, data = [0x02, 0x03, 0x00, 0, 0, 0, 0, 0] \<rparr> = Some ecu_init
   \<and> process_obd2_request ecu_init
     \<lparr> can_id = 0x7DF, can_dlc = 3, data = [0x02, 0x01, 0x00, 0, 0, 0, 0, 0] \<rparr> \<noteq> Some ecu_init
   \<and> req_mode \<lparr> can_id = 0x7DF, can_dlc = 3, data = [0x02, 0x01, 0x00, 0, 0, 0, 0, 0] \<rparr> = 0x01"
proof -
  have reply: "process_obd2_request ecu_init
     \<lparr> can_id = 0x7DF, can_dlc = 3, data = [0x02, 0x01, 0x00, 0, 0, 0, 0, 0] \<rparr> \<noteq> Some ecu_init"
    using process_mode01
      [of "\<lparr> can_id = 0x7DF, can_dlc = 3, data = [0x02, 0x01, 0x00, 0, 0, 0, 0, 0] \<rparr>" ecu_init]
      handle_bitmap [of ecu_init]
    by (simp add: req_mode_def req_pid_def ecu_init_def)
  show ?thesis
    using reply
      C7_invalid_request_dropped
        [of "\<lparr> can_id = 0x7DF, can_dlc = 1, data = [0x01, 0x01, 0x0C, 0, 0, 0, 0, 0] \<rparr>" ecu_init]
      C7_invalid_request_dropped
        [of "\<lparr> can_id = 0x7DF, can_dlc = 3, data = [0x02, 0x03, 0x00, 0, 0, 0, 0, 0] \<rparr>" ecu_init]
      C7_invalid_request_dropped
        [of "\<lparr> can_id = 0x7DF, can_dlc = 3, data = [0x02, 0x01, 0x00, 0, 0, 0, 0, 0] \<rparr>" ecu_init]
    by (simp add: req_mode_def)
qed

text \<open>
  C9. A Mode 01 request frame of exactly two payload bytes carries no PID byte; the
  handler takes the PID to be 0x00 and replies with the supported-PID bitmap.
\<close>

theorem C9_missing_pid_is_zero:
  assumes "can_id frame = CAN_ID_OBD_BROADCAST \<or> can_id frame = CAN_ID_OBD_ECU_ENGINE"
    and "can_dlc frame = 2"
    and "req_mode frame = OBD2_MODE_CURRENT_DATA"
  shows "req_pid frame = 0x00 \<and> process_obd2_request w frame =
    Some (w\<lparr> sent := sent w @
      [\<lparr> can_id = 0x7E8, can_dlc = 7,
         data = [0x06, 0x41, 0x00, 0x18, 0x3E, 0x80, 0x00, 0x00] \<rparr>] \<rparr>)"
proof -
  have pid: "req_pid frame = 0x00"
    using assms(2) by (simp add: req_pid_def)
  have "process_obd2_request w frame = handle_obd2_mode01 w (req_pid frame)"
    using assms by (intro process_mode01) simp_all
  then show ?thesis
    using pid handle_bitmap [of w] by (simp add: bitmap_frame_def)
qed

theorem C9_missing_pid_is_zero_witness:
  "process_obd2_request ecu_init
     \<lparr> can_id = 0x7DF, can_dlc = 2, data = [0x01, 0x01, 0x0C, 0, 0, 0, 0, 0] \<rparr>
   = Some \<lparr> vehicle = vehicle_init,
            sent = [\<lparr> can_id = 0x7E8, can_dlc = 7,
                      data = [0x06, 0x41, 0x00, 0x18, 0x3E, 0x80, 0x00, 0x00] \<rparr>] \<rparr>"
  using C9_missing_pid_is_zero
    [of "\<lparr> can_id = 0x7DF, can_dlc = 2, data = [0x01, 0x01, 0x0C, 0, 0, 0, 0, 0] \<rparr>"
        ecu_init]
  by (simp add: req_mode_def ecu_init_def)

section \<open>Results on the vehicle simulation\<close>

subsection \<open>Interval arithmetic on rounded operations\<close>

lemma fround_numeral:
  assumes "(numeral k :: int) < 2 ^ 24" shows "fround (numeral k) = numeral k"
  using fround_of_int [of "numeral k"] assms by simp

lemma fround_1: "fround 1 = 1"
  using fround_of_int [of 1] by simp

lemma fadd_bounds:
  assumes "l1 \<le> a" "a \<le> u1" "l2 \<le> b" "b \<le> u2"
  shows "fround (l1 + l2) \<le> fadd a b" and "fadd a b \<le> fround (u1 + u2)"
  unfolding fadd_def using assms by (auto intro!: fround_mono)

lemma fsub_bounds:
  assumes "l1 \<le> a" "a \<le> u1" "l2 \<le> b" "b \<le> u2"
  shows "fround (l1 - u2) \<le> fsub a b" and "fsub a b \<le> fround (u1 - l2)"
  unfolding fsub_def using assms by (auto intro!: fround_mono)

lemma fmul_bounds:
  assumes "0 \<le> c" "l \<le> a" "a \<le> u"
  shows "fround (c * l) \<le> fmul c a" and "fmul c a \<le> fround (c * u)"
    and "fround (l * c) \<le> fmul a c" and "fmul a c \<le> fround (u * c)"
  unfolding fmul_def using assms by (auto intro!: fround_mono mult_left_mono mult_right_mono)

lemma fdiv_bounds:
  assumes "0 < c" "l \<le> a" "a \<le> u"
  shows "fround (l / c) \<le> fdiv a c" and "fdiv a c \<le> fround (u / c)"
  unfolding fdiv_def using assms by (auto intro!: fround_mono divide_right_mono)

lemma ftrunc_nonneg: "0 \<le> x \<Longrightarrow> ftrunc x = \<lfloor>x\<rfloor>"
  by (simp add: ftrunc_def)

lemma fmodf_range:
  assumes "0 \<le> x" "0 < y"
  shows "0 \<le> fmodf x y" and "fmodf x y < y"
proof -
  have q: "0 \<le> x / y" using assms by simp
  have fl: "of_int \<lfloor>x / y\<rfloor> \<le> x / y" "x / y < of_int \<lfloor>x / y\<rfloor> + 1" by linarith+
  have "of_int \<lfloor>x / y\<rfloor> * y \<le> (x / y) * y"
    using assms(2) by (intro mult_right_mono) simp_all
  then have "of_int \<lfloor>x / y\<rfloor> * y \<le> x" using assms(2) by simp
  then show "0 \<le> fmodf x y" by (simp add: fmodf_def ftrunc_nonneg [OF q])
  have "(x / y) * y < (of_int \<lfloor>x / y\<rfloor> + 1) * y"
    using assms(2) fl(2) by (intro mult_strict_right_mono) simp_all
  then have "x < (of_int \<lfloor>x / y\<rfloor> + 1) * y" using assms(2) by simp
  then show "fmodf x y < y" by (simp add: fmodf_def ftrunc_nonneg [OF q] algebra_simps)
qed

lemma f2int_small:
  assumes "0 \<le> x" "x \<le> 5"
  shows "\<exists>k. f2int x = Some k \<and> 0 \<le> k \<and> k \<le> 5"
proof -
  have "0 \<le> \<lfloor>x\<rfloor>" "\<lfloor>x\<rfloor> \<le> 5" using assms by (simp_all add: floor_le_iff) 
  then show ?thesis using assms by (simp add: f2int_def ftrunc_nonneg)
qed


lemma fround_neg_numeral:
  assumes "(numeral k :: int) < 2 ^ 24" shows "fround (- numeral k) = - numeral k"
  using fround_numeral [OF assms] by (simp add: fround_minus)

lemma affine_bounds:
  assumes "0 \<le> c" "l \<le> x" "x \<le> u"
  shows "fround (a + fround (c * l)) \<le> fadd a (fmul c x)"
    and "fadd a (fmul c x) \<le> fround (a + fround (c * u))"
  using fmul_bounds(1,2) [OF assms] 
  by (auto intro!: fadd_bounds [where ?l1.0 = a and ?u1.0 = a])

lemma progress_bounds:
  assumes "lo \<le> cycle" "cycle \<le> lo + 15"
  shows "0 \<le> fdiv (fsub cycle lo) 15" and "fdiv (fsub cycle lo) 15 \<le> 1"
proof -
  have a: "fround (lo - lo) \<le> fsub cycle lo" "fsub cycle lo \<le> fround (lo + 15 - lo)"
    using fsub_bounds [of lo cycle "lo + 15" lo lo lo] assms by simp_all
  then have a': "0 \<le> fsub cycle lo" "fsub cycle lo \<le> 15"
    by (simp_all add: fround_0 fround_numeral)
  have "fround (0 / 15) \<le> fdiv (fsub cycle lo) 15" "fdiv (fsub cycle lo) 15 \<le> fround (15 / 15)"
    using fdiv_bounds [of 15 0 "fsub cycle lo" 15] a' by simp_all
  then show "0 \<le> fdiv (fsub cycle lo) 15" and "fdiv (fsub cycle lo) 15 \<le> 1"
    by (simp_all add: fround_0 fround_1)
qed

lemma idle_phase:
  assumes "cycle < 10"
  shows "driving_pattern sinf t cycle v =
    Some (v\<lparr> rpm := fadd 800 (fmul 50 (sinf (fmul t 2))), throttle := 0,
             vehicle_speed := 0, gear := 0 \<rparr>)"
  using assms by (simp add: driving_pattern_def)

lemma cruise_phase:
  assumes "25 \<le> cycle" "cycle < 45"
  shows "driving_pattern sinf t cycle v =
    Some (v\<lparr> rpm := fadd 2500 (fmul 200 (sinf (fmul t (1/2)))),
             throttle := fadd 25 (fmul 5 (sinf (fmul t (fround (3/10))))),
             vehicle_speed := fadd 100 (fmul 10 (sinf (fmul t (fround (1/5))))),
             gear := 6 \<rparr>)"
  using assms by (simp add: driving_pattern_def)

lemma accel_phase:
  assumes "10 \<le> cycle" "cycle < 25"
  shows "\<exists>g. driving_pattern sinf t cycle v =
    Some (v\<lparr> rpm := fadd 800 (fmul 4200 (fdiv (fsub cycle 10) 15)),
             throttle := fadd 30 (fmul 50 (fdiv (fsub cycle 10) 15)),
             vehicle_speed := fmul 120 (fdiv (fsub cycle 10) 15),
             gear := g \<rparr>) \<and> 1 \<le> g \<and> g \<le> 6"
proof -
  define p where "p = fdiv (fsub cycle 10) 15"
  have p: "0 \<le> p" "p \<le> 1"
    unfolding p_def using progress_bounds [of 10 cycle] assms by simp_all
  have "fround (0 * 5) \<le> fmul p 5" "fmul p 5 \<le> fround (1 * 5)"
    using fmul_bounds(3,4) [of 5 0 p 1] p by simp_all
  then have "0 \<le> fmul p 5" "fmul p 5 \<le> 5" by (simp_all add: fround_0 fround_numeral)
  then obtain k where k: "f2int (fmul p 5) = Some k" "0 \<le> k" "k \<le> 5"
    using f2int_small by blast
  have g: "int_c (1 + k) = Some (1 + k)" using k by (simp add: int_c_def)
  show ?thesis
    using assms k g
    by (intro exI [of _ "1 + k"]) (simp add: driving_pattern_def Let_def p_def [symmetric])
qed

lemma decel_phase:
  assumes "45 \<le> cycle" "cycle < 60"
  shows "\<exists>g. driving_pattern sinf t cycle v =
    Some (v\<lparr> rpm := fsub 2500 (fmul 1700 (fdiv (fsub cycle 45) 15)),
             throttle := fmul 25 (fsub 1 (fdiv (fsub cycle 45) 15)),
             vehicle_speed := fmul 100 (fsub 1 (fdiv (fsub cycle 45) 15)),
             gear := g \<rparr>) \<and> 1 \<le> g \<and> g \<le> 6"
proof -
  define p where "p = fdiv (fsub cycle 45) 15"
  have p: "0 \<le> p" "p \<le> 1"
    unfolding p_def using progress_bounds [of 45 cycle] assms by simp_all
  have "fround (0 * 5) \<le> fmul p 5" "fmul p 5 \<le> fround (1 * 5)"
    using fmul_bounds(3,4) [of 5 0 p 1] p by simp_all
  then have "0 \<le> fmul p 5" "fmul p 5 \<le> 5" by (simp_all add: fround_0 fround_numeral)
  then obtain k where k: "f2int (fmul p 5) = Some k" "0 \<le> k" "k \<le> 5"
    using f2int_small by blast
  have g: "int_c (6 - k) = Some (6 - k)" using k by (simp add: int_c_def)
  show ?thesis
    using assms k g
    by (intro exI [of _ "6 - k"]) (simp add: driving_pattern_def Let_def p_def [symmetric])
qed


lemma driving_pattern_bounds:
  assumes sb: "\<And>x. - 1 \<le> sinf x \<and> sinf x \<le> 1" and c: "0 \<le> cycle" "cycle < 60"
  shows "\<exists>v'. driving_pattern sinf t cycle v = Some v'
     \<and> 750 \<le> rpm v' \<and> rpm v' \<le> 5000
     \<and> 0 \<le> throttle v' \<and> throttle v' \<le> 80
     \<and> 0 \<le> vehicle_speed v' \<and> vehicle_speed v' \<le> 120
     \<and> 0 \<le> gear v' \<and> gear v' \<le> 6
     \<and> sim_time v' = sim_time v \<and> odometer v' = odometer v"
proof -
  consider "cycle < 10" | "10 \<le> cycle" "cycle < 25" | "25 \<le> cycle" "cycle < 45"
    | "45 \<le> cycle" "cycle < 60" using c by linarith
  then show ?thesis
  proof cases
    case 1
    have "fround (800 + fround (50 * - 1)) \<le> fadd 800 (fmul 50 (sinf (fmul t 2)))"
      "fadd 800 (fmul 50 (sinf (fmul t 2))) \<le> fround (800 + fround (50 * 1))"
      using affine_bounds [of 50 "- 1" "sinf (fmul t 2)" 1 800] sb by simp_all
    then have "750 \<le> fadd 800 (fmul 50 (sinf (fmul t 2)))"
      "fadd 800 (fmul 50 (sinf (fmul t 2))) \<le> 850"
      by (simp_all add: fround_numeral fround_neg_numeral)
    then show ?thesis by (simp add: idle_phase [OF 1])
  next
    case 2
    define p where "p = fdiv (fsub cycle 10) 15"
    have p: "0 \<le> p" "p \<le> 1"
      unfolding p_def using progress_bounds [of 10 cycle] 2 by simp_all
    have "fround (800 + fround (4200 * 0)) \<le> fadd 800 (fmul 4200 p)"
      "fadd 800 (fmul 4200 p) \<le> fround (800 + fround (4200 * 1))"
      using affine_bounds [of 4200 0 p 1 800] p by simp_all
    then have r: "800 \<le> fadd 800 (fmul 4200 p)" "fadd 800 (fmul 4200 p) \<le> 5000"
      by (simp_all add: fround_numeral fround_0)
    have "fround (30 + fround (50 * 0)) \<le> fadd 30 (fmul 50 p)"
      "fadd 30 (fmul 50 p) \<le> fround (30 + fround (50 * 1))"
      using affine_bounds [of 50 0 p 1 30] p by simp_all
    then have th: "30 \<le> fadd 30 (fmul 50 p)" "fadd 30 (fmul 50 p) \<le> 80"
      by (simp_all add: fround_numeral fround_0)
    have "fround (120 * 0) \<le> fmul 120 p" "fmul 120 p \<le> fround (120 * 1)"
      using fmul_bounds(1,2) [of 120 0 p 1] p by simp_all
    then have sp: "0 \<le> fmul 120 p" "fmul 120 p \<le> 120"
      by (simp_all add: fround_numeral fround_0)
    obtain g where "driving_pattern sinf t cycle v =
      Some (v\<lparr> rpm := fadd 800 (fmul 4200 p), throttle := fadd 30 (fmul 50 p),
               vehicle_speed := fmul 120 p, gear := g \<rparr>)" "1 \<le> g" "g \<le> 6"
      using accel_phase [OF 2, of sinf t v] unfolding p_def by blast
    then show ?thesis using r th sp by simp
  next
    case 3
    have "fround (2500 + fround (200 * - 1)) \<le> fadd 2500 (fmul 200 (sinf (fmul t (1/2))))"
      "fadd 2500 (fmul 200 (sinf (fmul t (1/2)))) \<le> fround (2500 + fround (200 * 1))"
      using affine_bounds [of 200 "- 1" "sinf (fmul t (1/2))" 1 2500] sb by simp_all
    then have r: "2300 \<le> fadd 2500 (fmul 200 (sinf (fmul t (1/2))))"
      "fadd 2500 (fmul 200 (sinf (fmul t (1/2)))) \<le> 2700"
      by (simp_all add: fround_numeral fround_neg_numeral)
    have "fround (25 + fround (5 * - 1)) \<le> fadd 25 (fmul 5 (sinf (fmul t (fround (3/10)))))"
      "fadd 25 (fmul 5 (sinf (fmul t (fround (3/10))))) \<le> fround (25 + fround (5 * 1))"
      using affine_bounds [of 5 "- 1" "sinf (fmul t (fround (3/10)))" 1 25] sb by simp_all
    then have th: "20 \<le> fadd 25 (fmul 5 (sinf (fmul t (fround (3/10)))))"
      "fadd 25 (fmul 5 (sinf (fmul t (fround (3/10))))) \<le> 30"
      by (simp_all add: fround_numeral fround_neg_numeral)
    have "fround (100 + fround (10 * - 1)) \<le> fadd 100 (fmul 10 (sinf (fmul t (fround (1/5)))))"
      "fadd 100 (fmul 10 (sinf (fmul t (fround (1/5))))) \<le> fround (100 + fround (10 * 1))"
      using affine_bounds [of 10 "- 1" "sinf (fmul t (fround (1/5)))" 1 100] sb by simp_all
    then have sp: "90 \<le> fadd 100 (fmul 10 (sinf (fmul t (fround (1/5)))))"
      "fadd 100 (fmul 10 (sinf (fmul t (fround (1/5))))) \<le> 110"
      by (simp_all add: fround_numeral fround_neg_numeral)
    show ?thesis using r th sp by (simp add: cruise_phase [OF 3])
  next
    case 4
    define p where "p = fdiv (fsub cycle 45) 15"
    have p: "0 \<le> p" "p \<le> 1"
      unfolding p_def using progress_bounds [of 45 cycle] 4 by simp_all
    have "fround (1700 * 0) \<le> fmul 1700 p" "fmul 1700 p \<le> fround (1700 * 1)"
      using fmul_bounds(1,2) [of 1700 0 p 1] p by simp_all
    then have m: "0 \<le> fmul 1700 p" "fmul 1700 p \<le> 1700"
      by (simp_all add: fround_numeral fround_0)
    have "fround (2500 - 1700) \<le> fsub 2500 (fmul 1700 p)"
      "fsub 2500 (fmul 1700 p) \<le> fround (2500 - 0)"
      using fsub_bounds [of 2500 2500 2500 0 "fmul 1700 p" 1700] m by simp_all
    then have r: "800 \<le> fsub 2500 (fmul 1700 p)" "fsub 2500 (fmul 1700 p) \<le> 2500"
      by (simp_all add: fround_numeral)
    have "fround (1 - 1) \<le> fsub 1 p" "fsub 1 p \<le> fround (1 - 0)"
      using fsub_bounds [of 1 1 1 0 p 1] p by simp_all
    then have q: "0 \<le> fsub 1 p" "fsub 1 p \<le> 1" by (simp_all add: fround_0 fround_1)
    have "fround (25 * 0) \<le> fmul 25 (fsub 1 p)" "fmul 25 (fsub 1 p) \<le> fround (25 * 1)"
      using fmul_bounds(1,2) [of 25 0 "fsub 1 p" 1] q by simp_all
    then have th: "0 \<le> fmul 25 (fsub 1 p)" "fmul 25 (fsub 1 p) \<le> 25"
      by (simp_all add: fround_numeral fround_0)
    have "fround (100 * 0) \<le> fmul 100 (fsub 1 p)" "fmul 100 (fsub 1 p) \<le> fround (100 * 1)"
      using fmul_bounds(1,2) [of 100 0 "fsub 1 p" 1] q by simp_all
    then have sp: "0 \<le> fmul 100 (fsub 1 p)" "fmul 100 (fsub 1 p) \<le> 100"
      by (simp_all add: fround_numeral fround_0)
    obtain g where "driving_pattern sinf t cycle v =
      Some (v\<lparr> rpm := fsub 2500 (fmul 1700 p), throttle := fmul 25 (fsub 1 p),
               vehicle_speed := fmul 100 (fsub 1 p), gear := g \<rparr>)" "1 \<le> g" "g \<le> 6"
      using decel_phase [OF 4, of sinf t v] unfolding p_def by blast
    then show ?thesis using r th sp by simp
  qed
qed

lemma load_const: "fround (80 * fround (4/5)) = 64"
  by code_simp

lemma derived_fields_bounds:
  assumes "0 \<le> throttle v" "throttle v \<le> 80" "0 \<le> sim_time v"
  shows "10 \<le> engine_load (derived_fields sinf v)"
    and "engine_load (derived_fields sinf v) \<le> 74"
    and "25 \<le> fuel_level (derived_fields sinf v)"
    and "fuel_level (derived_fields sinf v) \<le> 75"
proof -
  have c: "0 \<le> fround (4/5)" by (intro fround_nonneg) simp
  have "fround (0 * fround (4/5)) \<le> fmul (throttle v) (fround (4/5))"
    "fmul (throttle v) (fround (4/5)) \<le> fround (80 * fround (4/5))"
    using fmul_bounds(3,4) [OF c assms(1,2)] by simp_all
  then have m: "0 \<le> fmul (throttle v) (fround (4/5))" "fmul (throttle v) (fround (4/5)) \<le> 64"
    by (simp_all add: fround_0 load_const)
  have "fround (0 + 10) \<le> fadd (fmul (throttle v) (fround (4/5))) 10"
    "fadd (fmul (throttle v) (fround (4/5))) 10 \<le> fround (64 + 10)"
    using fadd_bounds [of 0 "fmul (throttle v) (fround (4/5))" 64 10 10 10] m by simp_all
  then have l: "10 \<le> fadd (fmul (throttle v) (fround (4/5))) 10"
    "fadd (fmul (throttle v) (fround (4/5))) 10 \<le> 74"
    by (simp_all add: fround_numeral)
  have c1: "0 \<le> fround (1/100)" by (intro fround_nonneg) simp
  have y: "0 \<le> fmul (sim_time v) (fround (1/100))"
    unfolding fmul_def using assms(3) c1 by (intro fround_nonneg) simp
  have md: "0 \<le> fmodf (fmul (sim_time v) (fround (1/100))) 50"
    "fmodf (fmul (sim_time v) (fround (1/100))) 50 \<le> 50"
    using fmodf_range [OF y, of 50] by simp_all
  have "fround (75 - 50) \<le> fsub 75 (fmodf (fmul (sim_time v) (fround (1/100))) 50)"
    "fsub 75 (fmodf (fmul (sim_time v) (fround (1/100))) 50) \<le> fround (75 - 0)"
    using fsub_bounds [of 75 75 75 0 "fmodf (fmul (sim_time v) (fround (1/100))) 50" 50] md
    by simp_all
  then have f: "25 \<le> fsub 75 (fmodf (fmul (sim_time v) (fround (1/100))) 50)"
    "fsub 75 (fmodf (fmul (sim_time v) (fround (1/100))) 50) \<le> 75"
    by (simp_all add: fround_numeral)
  show "10 \<le> engine_load (derived_fields sinf v)"
    and "engine_load (derived_fields sinf v) \<le> 74"
    and "25 \<le> fuel_level (derived_fields sinf v)"
    and "fuel_level (derived_fields sinf v) \<le> 75"
    using l f by (simp_all add: derived_fields_def Let_def)
qed

lemma derived_fields_keeps:
  "rpm (derived_fields sinf v) = rpm v"
  "throttle (derived_fields sinf v) = throttle v"
  "vehicle_speed (derived_fields sinf v) = vehicle_speed v"
  "gear (derived_fields sinf v) = gear v"
  "odometer (derived_fields sinf v) = odometer v"
  "sim_time (derived_fields sinf v) = sim_time v"
  by (simp_all add: derived_fields_def Let_def)

lemma dt_main_nonneg: "0 \<le> dt_main"
  unfolding dt_main_def by (intro fround_nonneg) simp

lemma inc_const: "fround (fround (255 * dt_main) / 3600) < 1"
  by code_simp

lemma odometer_increment_zero:
  assumes "0 \<le> s" "s \<le> 255"
  shows "f2u32 (fdiv (fmul s dt_main) 3600) = Some 0"
proof -
  have "fround (0 * dt_main) \<le> fmul s dt_main" "fmul s dt_main \<le> fround (255 * dt_main)"
    using fmul_bounds(3,4) [OF dt_main_nonneg assms] by simp_all
  then have a: "0 \<le> fmul s dt_main" "fmul s dt_main \<le> fround (255 * dt_main)"
    by (simp_all add: fround_0)
  have "fround (0 / 3600) \<le> fdiv (fmul s dt_main) 3600"
    "fdiv (fmul s dt_main) 3600 \<le> fround (fround (255 * dt_main) / 3600)"
    using fdiv_bounds [of 3600 0 "fmul s dt_main" "fround (255 * dt_main)"] a by simp_all
  then have b: "0 \<le> fdiv (fmul s dt_main) 3600" "fdiv (fmul s dt_main) 3600 < 1"
    using inc_const by (simp_all add: fround_0)
  then have "\<lfloor>fdiv (fmul s dt_main) 3600\<rfloor> = 0" by (simp add: floor_eq_iff)
  then show ?thesis using b(1) by (simp add: f2u32_def ftrunc_nonneg)
qed


lemma update_simulation_step:
  assumes sb: "\<And>x. - 1 \<le> sinf x \<and> sinf x \<le> 1" and t0: "0 \<le> sim_time v"
  shows "\<exists>v'. update_simulation sinf dt_main v = Some v'
     \<and> 750 \<le> rpm v' \<and> rpm v' \<le> 5000
     \<and> 0 \<le> throttle v' \<and> throttle v' \<le> 80
     \<and> 10 \<le> engine_load v' \<and> engine_load v' \<le> 74
     \<and> 25 \<le> fuel_level v' \<and> fuel_level v' \<le> 75
     \<and> 0 \<le> vehicle_speed v' \<and> vehicle_speed v' \<le> 120
     \<and> 0 \<le> gear v' \<and> gear v' \<le> 6
     \<and> 0 \<le> sim_time v' \<and> odometer v' = odometer v"
proof -
  define t where "t = fadd (sim_time v) dt_main"
  have t: "0 \<le> t"
    unfolding t_def fadd_def using t0 dt_main_nonneg by (intro fround_nonneg) simp
  have cyc: "0 \<le> fmodf t 60" "fmodf t 60 < 60" using fmodf_range [OF t, of 60] by simp_all
  from driving_pattern_bounds [where sinf = sinf and t = t and v = "v\<lparr> sim_time := t \<rparr>", OF sb cyc]
  obtain v1 where H: "driving_pattern sinf t (fmodf t 60) (v\<lparr> sim_time := t \<rparr>) = Some v1
     \<and> 750 \<le> rpm v1 \<and> rpm v1 \<le> 5000
     \<and> 0 \<le> throttle v1 \<and> throttle v1 \<le> 80
     \<and> 0 \<le> vehicle_speed v1 \<and> vehicle_speed v1 \<le> 120
     \<and> 0 \<le> gear v1 \<and> gear v1 \<le> 6
     \<and> sim_time v1 = sim_time (v\<lparr> sim_time := t \<rparr>)
     \<and> odometer v1 = odometer (v\<lparr> sim_time := t \<rparr>)" ..
  then have v1: "driving_pattern sinf t (fmodf t 60) (v\<lparr> sim_time := t \<rparr>) = Some v1"
    and b1: "750 \<le> rpm v1" "rpm v1 \<le> 5000" "0 \<le> throttle v1" "throttle v1 \<le> 80"
      "0 \<le> vehicle_speed v1" "vehicle_speed v1 \<le> 120" "0 \<le> gear v1" "gear v1 \<le> 6"
    and k1: "sim_time v1 = t" "odometer v1 = odometer v"
    by simp_all
  define v2 where "v2 = derived_fields sinf v1"
  have k2: "rpm v2 = rpm v1" "throttle v2 = throttle v1" "vehicle_speed v2 = vehicle_speed v1"
    "gear v2 = gear v1" "odometer v2 = odometer v1" "sim_time v2 = sim_time v1"
    unfolding v2_def by (rule derived_fields_keeps)+
  have b2: "10 \<le> engine_load v2" "engine_load v2 \<le> 74"
    "25 \<le> fuel_level v2" "fuel_level v2 \<le> 75"
    unfolding v2_def using derived_fields_bounds [of v1 sinf] b1(3,4) k1(1) t by simp_all
  have inc: "f2u32 (fdiv (fmul (vehicle_speed v2) dt_main) 3600) = Some 0"
    using b1(5,6) k2(3) by (intro odometer_increment_zero) simp_all
  have "update_simulation sinf dt_main v = Some (v2\<lparr> odometer := odometer v2 + 0 \<rparr>)"
    using v1 inc by (simp add: update_simulation_def Let_def t_def [symmetric] v2_def [symmetric])
  then show ?thesis using b1 b2 k1 k2 t by simp
qed

lemma main_ticks_invariant:
  assumes sb: "\<And>x. - 1 \<le> sinf x \<and> sinf x \<le> 1"
  shows "\<exists>v. main_ticks sinf n = Some v
     \<and> 750 \<le> rpm v \<and> rpm v \<le> 5000
     \<and> 0 \<le> throttle v \<and> throttle v \<le> 80
     \<and> 10 \<le> engine_load v \<and> engine_load v \<le> 74
     \<and> 25 \<le> fuel_level v \<and> fuel_level v \<le> 75
     \<and> 0 \<le> vehicle_speed v \<and> vehicle_speed v \<le> 120
     \<and> 0 \<le> gear v \<and> gear v \<le> 6
     \<and> 0 \<le> sim_time v \<and> odometer v = 45231"
proof (induction n)
  case 0
  show ?case by (simp add: vehicle_init_def)
next
  case (Suc n)
  then obtain v where v: "main_ticks sinf n = Some v" "0 \<le> sim_time v" "odometer v = 45231"
    by blast
  from update_simulation_step [OF sb v(2)]
  obtain v' where "update_simulation sinf dt_main v = Some v'
     \<and> 750 \<le> rpm v' \<and> rpm v' \<le> 5000
     \<and> 0 \<le> throttle v' \<and> throttle v' \<le> 80
     \<and> 10 \<le> engine_load v' \<and> engine_load v' \<le> 74
     \<and> 25 \<le> fuel_level v' \<and> fuel_level v' \<le> 75
     \<and> 0 \<le> vehicle_speed v' \<and> vehicle_speed v' \<le> 120
     \<and> 0 \<le> gear v' \<and> gear v' \<le> 6
     \<and> 0 \<le> sim_time v' \<and> odometer v' = odometer v" ..
  then show ?case
    using v(1,3) by (intro exI [of _ v']) simp
qed

lemma sinf_approx_bounded: "- 1 \<le> sinf_approx x \<and> sinf_approx x \<le> 1"
proof -
  have "fround (- 1) \<le> fround (max (- 1) (min 1 p))" "fround (max (- 1) (min 1 p)) \<le> fround 1" for p :: rat
    by (intro fround_mono; simp)+
  then show ?thesis
    by (simp add: sinf_approx_def fround_minus fround_1)
qed

subsection \<open>Claims on the simulated ticks\<close>

text \<open>
  C5. For every function \<open>sinf\<close> with values in \<open>[-1, 1]\<close> and every number \<open>n\<close> of
  iterations of the main loop (so in particular over a full 60-second cycle), the tick
  function returns, and the vehicle after \<open>n\<close> ticks has rpm in \<open>[0, 16383.75]\<close>,
  throttle, engine_load and fuel_level in \<open>[0, 100]\<close>, vehicle_speed in \<open>[0, 255]\<close>
  and gear in \<open>{0..7}\<close>; the odometer after the next tick is not smaller.
\<close>

theorem C5_tick_range_invariant:
  assumes "\<And>x. - 1 \<le> sinf x \<and> sinf x \<le> 1"
  shows "\<exists>v v'. main_ticks sinf n = Some v \<and> main_ticks sinf (Suc n) = Some v'
     \<and> 0 \<le> rpm v \<and> rpm v \<le> 65535 / 4
     \<and> 0 \<le> throttle v \<and> throttle v \<le> 100
     \<and> 0 \<le> engine_load v \<and> engine_load v \<le> 100
     \<and> 0 \<le> fuel_level v \<and> fuel_level v \<le> 100
     \<and> 0 \<le> vehicle_speed v \<and> vehicle_speed v \<le> 255
     \<and> 0 \<le> gear v \<and> gear v \<le> 7
     \<and> odometer v \<le> odometer v'"
proof -
  from main_ticks_invariant [of sinf n, OF assms]
  obtain v where v: "main_ticks sinf n = Some v
     \<and> 750 \<le> rpm v \<and> rpm v \<le> 5000
     \<and> 0 \<le> throttle v \<and> throttle v \<le> 80
     \<and> 10 \<le> engine_load v \<and> engine_load v \<le> 74
     \<and> 25 \<le> fuel_level v \<and> fuel_level v \<le> 75
     \<and> 0 \<le> vehicle_speed v \<and> vehicle_speed v \<le> 120
     \<and> 0 \<le> gear v \<and> gear v \<le> 6
     \<and> 0 \<le> sim_time v \<and> odometer v = 45231" ..
  from main_ticks_invariant [of sinf "Suc n", OF assms]
  obtain v' where v': "main_ticks sinf (Suc n) = Some v'" "odometer v' = 45231" by blast
  show ?thesis
    using v v' by (intro exI [of _ v] exI [of _ v']) simp
qed

theorem C5_tick_range_invariant_witness:
  "\<exists>v v'. main_ticks sinf_approx 60000 = Some v \<and> main_ticks sinf_approx (Suc 60000) = Some v'
     \<and> 0 \<le> rpm v \<and> rpm v \<le> 65535 / 4
     \<and> 0 \<le> throttle v \<and> throttle v \<le> 100
     \<and> 0 \<le> engine_load v \<and> engine_load v \<le> 100
     \<and> 0 \<le> fuel_level v \<and> fuel_level v \<le> 100
     \<and> 0 \<le> vehicle_speed v \<and> vehicle_speed v \<le> 255
     \<and> 0 \<le> gear v \<and> gear v \<le> 7
     \<and> odometer v \<le> odometer v'"
  by (rule C5_tick_range_invariant [of sinf_approx 60000, OF sinf_approx_bounded])

text \<open>
  C10. With the tick size of the main loop, \<open>dt = 0.001f\<close>, the odometer increment
  \<open>(uint32_t)(vehicle_speed * dt / 3600.0f)\<close> is 0 for every speed between 0 and 255, and
  after any number of iterations of the main loop the odometer is still 45231.
\<close>

theorem C10_odometer_never_moves:
  assumes "\<And>x. - 1 \<le> sinf x \<and> sinf x \<le> 1" and "0 \<le> s" and "s \<le> 255"
  shows "f2u32 (fdiv (fmul s dt_main) 3600) = Some 0
     \<and> (\<exists>v. main_ticks sinf n = Some v \<and> odometer v = 45231)"
proof -
  from main_ticks_invariant [of sinf n, OF assms(1)]
  obtain v where "main_ticks sinf n = Some v" "odometer v = 45231" by blast
  then show ?thesis
    using odometer_increment_zero [OF assms(2,3)] by blast
qed

theorem C10_odometer_never_moves_witness:
  "f2u32 (fdiv (fmul 255 dt_main) 3600) = Some 0
     \<and> (\<exists>v. main_ticks sinf_approx 60000 = Some v \<and> odometer v = 45231)"
  using C10_odometer_never_moves [of sinf_approx 255 60000, OF sinf_approx_bounded] by simp

section \<open>Results on the broadcast encoders\<close>

lemma f2u8_fits:
  assumes "0 \<le> ftrunc x" "ftrunc x < 2 ^ 8"
  shows "f2u8 x = Some (word_of_int (ftrunc x))" and "uint (word_of_int (ftrunc x) :: u8) = ftrunc x"
  using assms by (simp_all add: f2u8_def uint_word_of_int take_bit_int_eq_self)

lemma f2u16_fits:
  assumes "0 \<le> ftrunc x" "ftrunc x < 2 ^ 16"
  shows "f2u16 x = Some (word_of_int (ftrunc x))" and "uint (word_of_int (ftrunc x) :: u16) = ftrunc x"
  using assms by (simp_all add: f2u16_def uint_word_of_int take_bit_int_eq_self)

lemma f2u8_overflow:
  assumes "\<not> (0 \<le> ftrunc x \<and> ftrunc x < 2 ^ 8)" shows "f2u8 x = None"
  using assms by (simp add: f2u8_def Let_def)

lemma f2u16_overflow:
  assumes "\<not> (0 \<le> ftrunc x \<and> ftrunc x < 2 ^ 16)" shows "f2u16 x = None"
  using assms by (simp add: f2u16_def Let_def)





















section \<open>Results on the phase boundaries\<close>

lemma progress_mono:
  assumes "c \<le> c'" shows "fdiv (fsub c lo) 15 \<le> fdiv (fsub c' lo) 15"
  unfolding fdiv_def fsub_def using assms
  by (intro fround_mono divide_right_mono) simp_all

lemma accel_rpm_mono:
  assumes "c \<le> c'"
  shows "fadd 800 (fmul 4200 (fdiv (fsub c 10) 15)) \<le> fadd 800 (fmul 4200 (fdiv (fsub c' 10) 15))"
  unfolding fadd_def fmul_def using progress_mono [OF assms, of 10]
  by (intro fround_mono add_left_mono mult_left_mono) simp_all

lemma accel_speed_mono:
  assumes "c \<le> c'"
  shows "fmul 120 (fdiv (fsub c 10) 15) \<le> fmul 120 (fdiv (fsub c' 10) 15)"
  unfolding fmul_def using progress_mono [OF assms, of 10]
  by (intro fround_mono mult_left_mono) simp_all

lemma decel_rpm_antimono:
  assumes "c \<le> c'"
  shows "fsub 2500 (fmul 1700 (fdiv (fsub c' 45) 15)) \<le> fsub 2500 (fmul 1700 (fdiv (fsub c 45) 15))"
  unfolding fsub_def [of 2500] fmul_def using progress_mono [OF assms, of 45]
  by (intro fround_mono diff_left_mono mult_left_mono) simp_all

lemma decel_speed_antimono:
  assumes "c \<le> c'"
  shows "fmul 100 (fsub 1 (fdiv (fsub c' 45) 15)) \<le> fmul 100 (fsub 1 (fdiv (fsub c 45) 15))"
  unfolding fsub_def [of 1] fmul_def using progress_mono [OF assms, of 45]
  by (intro fround_mono mult_left_mono diff_left_mono) simp_all

lemma accel_end_rpm: "4997 \<le> fadd 800 (fmul 4200 (fdiv (fsub (2499/100) 10) 15))"
  by code_simp

lemma accel_end_speed: "1199/10 \<le> fmul 120 (fdiv (fsub (2499/100) 10) 15)"
  by code_simp

lemma accel_start_rpm: "fadd 800 (fmul 4200 (fdiv (fsub (1001/100) 10) 15)) \<le> 803"
  by code_simp

lemma accel_start_speed: "fmul 120 (fdiv (fsub (1001/100) 10) 15) \<le> 9/100"
  by code_simp

lemma decel_start_rpm: "2498 \<le> fsub 2500 (fmul 1700 (fdiv (fsub (4501/100) 45) 15))"
  by code_simp

lemma decel_start_speed: "999/10 \<le> fmul 100 (fsub 1 (fdiv (fsub (4501/100) 45) 15))"
  by code_simp


lemma driving_pattern_profile:
  assumes sb: "\<And>x. - 1 \<le> sinf x \<and> sinf x \<le> 1" and c: "0 \<le> cycle" "cycle < 60"
  shows "\<exists>v'. driving_pattern sinf t cycle v = Some v'
     \<and> (cycle < 10 \<longrightarrow> 750 \<le> rpm v' \<and> rpm v' \<le> 850 \<and> vehicle_speed v' = 0)
     \<and> (10 \<le> cycle \<and> cycle < 25 \<longrightarrow>
           rpm v' = fadd 800 (fmul 4200 (fdiv (fsub cycle 10) 15))
         \<and> vehicle_speed v' = fmul 120 (fdiv (fsub cycle 10) 15))
     \<and> (25 \<le> cycle \<and> cycle < 45 \<longrightarrow>
           2300 \<le> rpm v' \<and> rpm v' \<le> 2700 \<and> 90 \<le> vehicle_speed v' \<and> vehicle_speed v' \<le> 110)
     \<and> (45 \<le> cycle \<longrightarrow>
           rpm v' = fsub 2500 (fmul 1700 (fdiv (fsub cycle 45) 15))
         \<and> vehicle_speed v' = fmul 100 (fsub 1 (fdiv (fsub cycle 45) 15)))
     \<and> 0 \<le> vehicle_speed v' \<and> vehicle_speed v' \<le> 120
     \<and> sim_time v' = sim_time v"
proof -
  from driving_pattern_bounds [where sinf = sinf and t = t and v = v, OF sb c]
  obtain v' where H: "driving_pattern sinf t cycle v = Some v'
     \<and> 750 \<le> rpm v' \<and> rpm v' \<le> 5000
     \<and> 0 \<le> throttle v' \<and> throttle v' \<le> 80
     \<and> 0 \<le> vehicle_speed v' \<and> vehicle_speed v' \<le> 120
     \<and> 0 \<le> gear v' \<and> gear v' \<le> 6
     \<and> sim_time v' = sim_time v \<and> odometer v' = odometer v" ..
  then have v': "driving_pattern sinf t cycle v = Some v'"
    and g: "0 \<le> vehicle_speed v'" "vehicle_speed v' \<le> 120" "sim_time v' = sim_time v"
    by simp_all
  have idle: "750 \<le> rpm v' \<and> rpm v' \<le> 850 \<and> vehicle_speed v' = 0" if "cycle < 10"
  proof -
    have "fround (800 + fround (50 * - 1)) \<le> fadd 800 (fmul 50 (sinf (fmul t 2)))"
      "fadd 800 (fmul 50 (sinf (fmul t 2))) \<le> fround (800 + fround (50 * 1))"
      using affine_bounds [of 50 "- 1" "sinf (fmul t 2)" 1 800] sb by simp_all
    then have "750 \<le> fadd 800 (fmul 50 (sinf (fmul t 2)))"
      "fadd 800 (fmul 50 (sinf (fmul t 2))) \<le> 850"
      by (simp_all add: fround_numeral fround_neg_numeral)
    then show ?thesis using v' idle_phase [OF that, of sinf t v] by auto
  qed
  have accel: "rpm v' = fadd 800 (fmul 4200 (fdiv (fsub cycle 10) 15))
         \<and> vehicle_speed v' = fmul 120 (fdiv (fsub cycle 10) 15)" if "10 \<le> cycle" "cycle < 25"
    using v' accel_phase [OF that, of sinf t v] by auto
  have cruise: "2300 \<le> rpm v' \<and> rpm v' \<le> 2700 \<and> 90 \<le> vehicle_speed v' \<and> vehicle_speed v' \<le> 110"
    if "25 \<le> cycle" "cycle < 45"
  proof -
    have "fround (2500 + fround (200 * - 1)) \<le> fadd 2500 (fmul 200 (sinf (fmul t (1/2))))"
      "fadd 2500 (fmul 200 (sinf (fmul t (1/2)))) \<le> fround (2500 + fround (200 * 1))"
      using affine_bounds [of 200 "- 1" "sinf (fmul t (1/2))" 1 2500] sb by simp_all
    then have r: "2300 \<le> fadd 2500 (fmul 200 (sinf (fmul t (1/2))))"
      "fadd 2500 (fmul 200 (sinf (fmul t (1/2)))) \<le> 2700"
      by (simp_all add: fround_numeral fround_neg_numeral)
    have "fround (100 + fround (10 * - 1)) \<le> fadd 100 (fmul 10 (sinf (fmul t (fround (1/5)))))"
      "fadd 100 (fmul 10 (sinf (fmul t (fround (1/5))))) \<le> fround (100 + fround (10 * 1))"
      using affine_bounds [of 10 "- 1" "sinf (fmul t (fround (1/5)))" 1 100] sb by simp_all
    then have sp: "90 \<le> fadd 100 (fmul 10 (sinf (fmul t (fround (1/5)))))"
      "fadd 100 (fmul 10 (sinf (fmul t (fround (1/5))))) \<le> 110"
      by (simp_all add: fround_numeral fround_neg_numeral)
    show ?thesis using v' cruise_phase [OF that, of sinf t v] r sp by auto
  qed
  have decel: "rpm v' = fsub 2500 (fmul 1700 (fdiv (fsub cycle 45) 15))
         \<and> vehicle_speed v' = fmul 100 (fsub 1 (fdiv (fsub cycle 45) 15))" if "45 \<le> cycle"
    using v' decel_phase [OF that c(2), of sinf t v] by auto
  show ?thesis
    using v' g idle accel cruise decel by (intro exI [of _ v']) blast
qed

lemma update_simulation_profile:
  assumes sb: "\<And>x. - 1 \<le> sinf x \<and> sinf x \<le> 1" and t0: "0 \<le> sim_time v"
  shows "\<exists>v'. update_simulation sinf dt_main v = Some v'
     \<and> sim_time v' = fadd (sim_time v) dt_main \<and> 0 \<le> sim_time v'
     \<and> 0 \<le> cycle_of v' \<and> cycle_of v' < 60
     \<and> (cycle_of v' < 10 \<longrightarrow> 750 \<le> rpm v' \<and> rpm v' \<le> 850 \<and> vehicle_speed v' = 0)
     \<and> (10 \<le> cycle_of v' \<and> cycle_of v' < 25 \<longrightarrow>
           rpm v' = fadd 800 (fmul 4200 (fdiv (fsub (cycle_of v') 10) 15))
         \<and> vehicle_speed v' = fmul 120 (fdiv (fsub (cycle_of v') 10) 15))
     \<and> (25 \<le> cycle_of v' \<and> cycle_of v' < 45 \<longrightarrow>
           2300 \<le> rpm v' \<and> rpm v' \<le> 2700 \<and> 90 \<le> vehicle_speed v' \<and> vehicle_speed v' \<le> 110)
     \<and> (45 \<le> cycle_of v' \<longrightarrow>
           rpm v' = fsub 2500 (fmul 1700 (fdiv (fsub (cycle_of v') 45) 15))
         \<and> vehicle_speed v' = fmul 100 (fsub 1 (fdiv (fsub (cycle_of v') 45) 15)))"
proof -
  define t where "t = fadd (sim_time v) dt_main"
  define cycle where "cycle = fmodf t 60"
  have t: "0 \<le> t"
    unfolding t_def fadd_def using t0 dt_main_nonneg by (intro fround_nonneg) simp
  have cyc: "0 \<le> cycle" "cycle < 60"
    unfolding cycle_def using fmodf_range [OF t, of 60] by simp_all
  from driving_pattern_profile [where sinf = sinf and t = t and v = "v\<lparr> sim_time := t \<rparr>", OF sb cyc]
  obtain v1 where H: "driving_pattern sinf t cycle (v\<lparr> sim_time := t \<rparr>) = Some v1
     \<and> (cycle < 10 \<longrightarrow> 750 \<le> rpm v1 \<and> rpm v1 \<le> 850 \<and> vehicle_speed v1 = 0)
     \<and> (10 \<le> cycle \<and> cycle < 25 \<longrightarrow>
           rpm v1 = fadd 800 (fmul 4200 (fdiv (fsub cycle 10) 15))
         \<and> vehicle_speed v1 = fmul 120 (fdiv (fsub cycle 10) 15))
     \<and> (25 \<le> cycle \<and> cycle < 45 \<longrightarrow>
           2300 \<le> rpm v1 \<and> rpm v1 \<le> 2700 \<and> 90 \<le> vehicle_speed v1 \<and> vehicle_speed v1 \<le> 110)
     \<and> (45 \<le> cycle \<longrightarrow>
           rpm v1 = fsub 2500 (fmul 1700 (fdiv (fsub cycle 45) 15))
         \<and> vehicle_speed v1 = fmul 100 (fsub 1 (fdiv (fsub cycle 45) 15)))
     \<and> 0 \<le> vehicle_speed v1 \<and> vehicle_speed v1 \<le> 120
     \<and> sim_time v1 = sim_time (v\<lparr> sim_time := t \<rparr>)" ..
  then have v1: "driving_pattern sinf t cycle (v\<lparr> sim_time := t \<rparr>) = Some v1"
    and sp: "0 \<le> vehicle_speed v1" "vehicle_speed v1 \<le> 120" and st: "sim_time v1 = t"
    by simp_all
  define v2 where "v2 = derived_fields sinf v1"
  have k2: "rpm v2 = rpm v1" "vehicle_speed v2 = vehicle_speed v1" "sim_time v2 = sim_time v1"
    unfolding v2_def by (simp_all add: derived_fields_keeps)
  have inc: "f2u32 (fdiv (fmul (vehicle_speed v2) dt_main) 3600) = Some 0"
    using sp k2(2) by (intro odometer_increment_zero) simp_all
  define v3 where "v3 = v2\<lparr> odometer := odometer v2 + 0 \<rparr>"
  have res: "update_simulation sinf dt_main v = Some v3"
    using v1 inc
    by (simp add: update_simulation_def Let_def t_def [symmetric] cycle_def [symmetric]
        v2_def [symmetric] v3_def)
  have k3: "rpm v1 = rpm v3" "vehicle_speed v1 = vehicle_speed v3" "cycle = cycle_of v3"
    using k2 st by (simp_all add: v3_def cycle_of_def cycle_def)
  have st3: "sim_time v3 = fadd (sim_time v) dt_main" "0 \<le> sim_time v3"
    using k2 st t by (simp_all add: v3_def t_def)
  have prof: "(cycle < 10 \<longrightarrow> 750 \<le> rpm v1 \<and> rpm v1 \<le> 850 \<and> vehicle_speed v1 = 0)
     \<and> (10 \<le> cycle \<and> cycle < 25 \<longrightarrow>
           rpm v1 = fadd 800 (fmul 4200 (fdiv (fsub cycle 10) 15))
         \<and> vehicle_speed v1 = fmul 120 (fdiv (fsub cycle 10) 15))
     \<and> (25 \<le> cycle \<and> cycle < 45 \<longrightarrow>
           2300 \<le> rpm v1 \<and> rpm v1 \<le> 2700 \<and> 90 \<le> vehicle_speed v1 \<and> vehicle_speed v1 \<le> 110)
     \<and> (45 \<le> cycle \<longrightarrow>
           rpm v1 = fsub 2500 (fmul 1700 (fdiv (fsub cycle 45) 15))
         \<and> vehicle_speed v1 = fmul 100 (fsub 1 (fdiv (fsub cycle 45) 15)))"
    using H by blast
  have cyc3: "0 \<le> cycle_of v3" "cycle_of v3 < 60" using cyc by (simp_all only: k3(3))
  show ?thesis
    using res st3 cyc3 prof unfolding k3
    by (intro exI [of _ v3]) blast
qed


lemma accel_at_10: "fadd 800 (fmul 4200 (fdiv (fsub 10 10) 15)) = 800"
  "fmul 120 (fdiv (fsub 10 10) 15) = 0"
  by code_simp+

lemma accel_at_25: "fadd 800 (fmul 4200 (fdiv (fsub 25 10) 15)) = 5000"
  "fmul 120 (fdiv (fsub 25 10) 15) = 120"
  by code_simp+

lemma decel_at_45: "fsub 2500 (fmul 1700 (fdiv (fsub 45 45) 15)) = 2500"
  "fmul 100 (fsub 1 (fdiv (fsub 45 45) 15)) = 100"
  by code_simp+

lemma boundary_jumps:
  assumes sb: "\<And>x. - 1 \<le> sinf x \<and> sinf x \<le> 1" and t0: "0 \<le> sim_time v0"
  shows "\<exists>v1 v2. update_simulation sinf dt_main v0 = Some v1
     \<and> update_simulation sinf dt_main v1 = Some v2
     \<and> sim_time v1 = fadd (sim_time v0) dt_main \<and> sim_time v2 = fadd (sim_time v1) dt_main
     \<and> (cycle_of v1 < 10 \<and> 10 \<le> cycle_of v2 \<and> cycle_of v2 \<le> 1001/100 \<longrightarrow>
           \<bar>rpm v2 - rpm v1\<bar> \<le> 53 \<and> \<bar>vehicle_speed v2 - vehicle_speed v1\<bar> \<le> 9/100)
     \<and> (2499/100 \<le> cycle_of v1 \<and> cycle_of v1 < 25 \<and> 25 \<le> cycle_of v2 \<and> cycle_of v2 < 45 \<longrightarrow>
           2297 \<le> rpm v1 - rpm v2 \<and> rpm v1 - rpm v2 \<le> 2700
         \<and> 99/10 \<le> vehicle_speed v1 - vehicle_speed v2
         \<and> vehicle_speed v1 - vehicle_speed v2 \<le> 30)
     \<and> (25 \<le> cycle_of v1 \<and> cycle_of v1 < 45 \<and> 45 \<le> cycle_of v2 \<and> cycle_of v2 \<le> 4501/100 \<longrightarrow>
           \<bar>rpm v2 - rpm v1\<bar> \<le> 202 \<and> \<bar>vehicle_speed v2 - vehicle_speed v1\<bar> \<le> 101/10)"
proof -
  from update_simulation_profile [of sinf v0, OF sb t0]
  obtain v1 where H1: "update_simulation sinf dt_main v0 = Some v1
     \<and> sim_time v1 = fadd (sim_time v0) dt_main \<and> 0 \<le> sim_time v1
     \<and> 0 \<le> cycle_of v1 \<and> cycle_of v1 < 60
     \<and> (cycle_of v1 < 10 \<longrightarrow> 750 \<le> rpm v1 \<and> rpm v1 \<le> 850 \<and> vehicle_speed v1 = 0)
     \<and> (10 \<le> cycle_of v1 \<and> cycle_of v1 < 25 \<longrightarrow>
           rpm v1 = fadd 800 (fmul 4200 (fdiv (fsub (cycle_of v1) 10) 15))
         \<and> vehicle_speed v1 = fmul 120 (fdiv (fsub (cycle_of v1) 10) 15))
     \<and> (25 \<le> cycle_of v1 \<and> cycle_of v1 < 45 \<longrightarrow>
           2300 \<le> rpm v1 \<and> rpm v1 \<le> 2700 \<and> 90 \<le> vehicle_speed v1 \<and> vehicle_speed v1 \<le> 110)
     \<and> (45 \<le> cycle_of v1 \<longrightarrow>
           rpm v1 = fsub 2500 (fmul 1700 (fdiv (fsub (cycle_of v1) 45) 15))
         \<and> vehicle_speed v1 = fmul 100 (fsub 1 (fdiv (fsub (cycle_of v1) 45) 15)))" ..
  then have t1: "0 \<le> sim_time v1" by simp
  from update_simulation_profile [of sinf v1, OF sb t1]
  obtain v2 where H2: "update_simulation sinf dt_main v1 = Some v2
     \<and> sim_time v2 = fadd (sim_time v1) dt_main \<and> 0 \<le> sim_time v2
     \<and> 0 \<le> cycle_of v2 \<and> cycle_of v2 < 60
     \<and> (cycle_of v2 < 10 \<longrightarrow> 750 \<le> rpm v2 \<and> rpm v2 \<le> 850 \<and> vehicle_speed v2 = 0)
     \<and> (10 \<le> cycle_of v2 \<and> cycle_of v2 < 25 \<longrightarrow>
           rpm v2 = fadd 800 (fmul 4200 (fdiv (fsub (cycle_of v2) 10) 15))
         \<and> vehicle_speed v2 = fmul 120 (fdiv (fsub (cycle_of v2) 10) 15))
     \<and> (25 \<le> cycle_of v2 \<and> cycle_of v2 < 45 \<longrightarrow>
           2300 \<le> rpm v2 \<and> rpm v2 \<le> 2700 \<and> 90 \<le> vehicle_speed v2 \<and> vehicle_speed v2 \<le> 110)
     \<and> (45 \<le> cycle_of v2 \<longrightarrow>
           rpm v2 = fsub 2500 (fmul 1700 (fdiv (fsub (cycle_of v2) 45) 15))
         \<and> vehicle_speed v2 = fmul 100 (fsub 1 (fdiv (fsub (cycle_of v2) 45) 15)))" ..
  have b10: "\<bar>rpm v2 - rpm v1\<bar> \<le> 53 \<and> \<bar>vehicle_speed v2 - vehicle_speed v1\<bar> \<le> 9/100"
    if c: "cycle_of v1 < 10" "10 \<le> cycle_of v2" "cycle_of v2 \<le> 1001/100"
  proof -
    have a: "750 \<le> rpm v1" "rpm v1 \<le> 850" "vehicle_speed v1 = 0" using H1 c(1) by simp_all
    have c2: "cycle_of v2 < 25" using c(3) by simp
    have e: "rpm v2 = fadd 800 (fmul 4200 (fdiv (fsub (cycle_of v2) 10) 15))"
      "vehicle_speed v2 = fmul 120 (fdiv (fsub (cycle_of v2) 10) 15)"
      using H2 c(2) c2 by simp_all
    have "800 \<le> rpm v2" "rpm v2 \<le> 803"
      unfolding e using accel_rpm_mono [OF c(2)] accel_rpm_mono [OF c(3)] accel_start_rpm
      by (simp_all add: accel_at_10)
    moreover have "0 \<le> vehicle_speed v2" "vehicle_speed v2 \<le> 9/100"
      unfolding e using accel_speed_mono [OF c(2)] accel_speed_mono [OF c(3)] accel_start_speed
      by (simp_all add: accel_at_10)
    ultimately show ?thesis using a by linarith
  qed
  have b25: "2297 \<le> rpm v1 - rpm v2 \<and> rpm v1 - rpm v2 \<le> 2700
         \<and> 99/10 \<le> vehicle_speed v1 - vehicle_speed v2
         \<and> vehicle_speed v1 - vehicle_speed v2 \<le> 30"
    if c: "2499/100 \<le> cycle_of v1" "cycle_of v1 < 25" "25 \<le> cycle_of v2" "cycle_of v2 < 45"
  proof -
    have c1: "10 \<le> cycle_of v1" "cycle_of v1 \<le> 25" using c(1,2) by simp_all
    have e: "rpm v1 = fadd 800 (fmul 4200 (fdiv (fsub (cycle_of v1) 10) 15))"
      "vehicle_speed v1 = fmul 120 (fdiv (fsub (cycle_of v1) 10) 15)"
      using H1 c1(1) c(2) by simp_all
    have "4997 \<le> rpm v1" "rpm v1 \<le> 5000"
      unfolding e using accel_rpm_mono [OF c(1)] accel_rpm_mono [OF c1(2)] accel_end_rpm
      by (simp_all add: accel_at_25)
    moreover have "1199/10 \<le> vehicle_speed v1" "vehicle_speed v1 \<le> 120"
      unfolding e using accel_speed_mono [OF c(1)] accel_speed_mono [OF c1(2)] accel_end_speed
      by (simp_all add: accel_at_25)
    moreover have "2300 \<le> rpm v2" "rpm v2 \<le> 2700" "90 \<le> vehicle_speed v2" "vehicle_speed v2 \<le> 110"
      using H2 c(3,4) by simp_all
    ultimately show ?thesis by simp
  qed
  have b45: "\<bar>rpm v2 - rpm v1\<bar> \<le> 202 \<and> \<bar>vehicle_speed v2 - vehicle_speed v1\<bar> \<le> 101/10"
    if c: "25 \<le> cycle_of v1" "cycle_of v1 < 45" "45 \<le> cycle_of v2" "cycle_of v2 \<le> 4501/100"
  proof -
    have a: "2300 \<le> rpm v1" "rpm v1 \<le> 2700" "90 \<le> vehicle_speed v1" "vehicle_speed v1 \<le> 110"
      using H1 c(1,2) by simp_all
    have e: "rpm v2 = fsub 2500 (fmul 1700 (fdiv (fsub (cycle_of v2) 45) 15))"
      "vehicle_speed v2 = fmul 100 (fsub 1 (fdiv (fsub (cycle_of v2) 45) 15))"
      using H2 c(3) by simp_all
    have "2498 \<le> rpm v2" "rpm v2 \<le> 2500"
      unfolding e using decel_rpm_antimono [OF c(3)] decel_rpm_antimono [OF c(4)] decel_start_rpm
      by (simp_all add: decel_at_45)
    moreover have "999/10 \<le> vehicle_speed v2" "vehicle_speed v2 \<le> 100"
      unfolding e using decel_speed_antimono [OF c(3)] decel_speed_antimono [OF c(4)]
        decel_start_speed
      by (simp_all add: decel_at_45)
    ultimately show ?thesis using a by linarith
  qed
  have s1: "update_simulation sinf dt_main v0 = Some v1" "sim_time v1 = fadd (sim_time v0) dt_main"
    using H1 by simp_all
  have s2: "update_simulation sinf dt_main v1 = Some v2" "sim_time v2 = fadd (sim_time v1) dt_main"
    using H2 by simp_all
  show ?thesis
    using s1 s2 b10 b25 b45 by (intro exI [of _ v1] exI [of _ v2]) blast
qed


lemma dt_main_value: "dt_main = 8589935 / 8589934592"
  by code_simp

lemma tick_clock_bounds:
  assumes "0 \<le> t" "t \<le> 26"
  shows "t + 9/10000 \<le> fadd t dt_main" and "fadd t dt_main \<le> t + 11/10000"
proof -
  define x where "x = t + dt_main"
  have x: "0 < x" "x < 32" using assms by (simp_all add: x_def dt_main_value)
  have "\<bar>x\<bar> < 2 powi (4 + 1)" using x by simp
  then have "ulp x \<le> 2 powi (max (4 - 23) (- 149))" using x(1) by (intro ulp_le) simp_all
  then have u: "ulp x \<le> 1 / 524288" by (simp add: power_int_minus_divide)
  have "\<bar>fround x - x\<bar> \<le> ulp x / 2" by (rule fround_error)
  then have "\<bar>fround x - x\<bar> \<le> 1 / 1048576" using u by linarith
  then have "x - 1 / 1048576 \<le> fround x" "fround x \<le> x + 1 / 1048576" by linarith+
  moreover have "x = t + 8589935 / 8589934592" by (simp add: x_def dt_main_value)
  ultimately show "t + 9/10000 \<le> fadd t dt_main" and "fadd t dt_main \<le> t + 11/10000"
    unfolding fadd_def x_def [symmetric] by linarith+
qed

lemma fmodf_small:
  assumes "0 \<le> x" "x < y" shows "fmodf x y = x"
proof -
  have "0 \<le> x / y" "x / y < 1" using assms by simp_all
  then have "\<lfloor>x / y\<rfloor> = 0" by (simp add: floor_eq_iff)
  then show ?thesis using \<open>0 \<le> x / y\<close> by (simp add: fmodf_def ftrunc_nonneg)
qed

lemma driving_pattern_sim_time:
  assumes "driving_pattern sinf t cycle v = Some v'" shows "sim_time v' = sim_time v"
  using assms by (auto simp: driving_pattern_def Let_def split: if_splits bind_splits)

lemma update_simulation_sim_time:
  assumes "update_simulation sinf dt v = Some v'" shows "sim_time v' = fadd (sim_time v) dt"
  using assms driving_pattern_sim_time [of sinf "fadd (sim_time v) dt"]
  by (auto simp: update_simulation_def Let_def derived_fields_keeps split: bind_splits)

lemma run_crosses_25:
  assumes sb: "\<And>x. - 1 \<le> sinf x \<and> sinf x \<le> 1"
  shows "\<exists>n v0 v1 v2. main_ticks sinf n = Some v0 \<and> main_ticks sinf (Suc n) = Some v1
     \<and> main_ticks sinf (Suc (Suc n)) = Some v2
     \<and> 2499/100 \<le> cycle_of v1 \<and> cycle_of v1 < 25 \<and> 25 \<le> cycle_of v2 \<and> cycle_of v2 < 45"
proof -
  define V where "V n = the (main_ticks sinf n)" for n
  define T where "T n = sim_time (V n)" for n
  have run: "main_ticks sinf n = Some (V n)" and nonneg: "0 \<le> T n" for n
    using main_ticks_invariant [of sinf n, OF sb] by (auto simp: V_def T_def)
  have step: "T (Suc n) = fadd (T n) dt_main" for n
  proof -
    have "update_simulation sinf dt_main (V n) = Some (V (Suc n))"
      using run [of "Suc n"] by (simp add: run [of n])
    then show ?thesis unfolding T_def by (rule update_simulation_sim_time)
  qed
  have T0: "T 0 = 0" by (simp add: T_def V_def vehicle_init_def)
  have growth: "(\<forall>k<n. T k < 25) \<longrightarrow> 9/10000 * of_nat n \<le> T n" for n
  proof (induction n)
    case 0
    show ?case by (simp add: T0)
  next
    case (Suc n)
    show ?case
    proof
      assume a: "\<forall>k<Suc n. T k < 25"
      then have ih: "9/10000 * of_nat n \<le> T n" and lt: "T n < 25" using Suc by simp_all
      have "T n + 9/10000 \<le> T (Suc n)"
        unfolding step using nonneg [of n] lt by (intro tick_clock_bounds(1)) simp_all
      then show "9/10000 * of_nat (Suc n) \<le> T (Suc n)" using ih by (simp add: algebra_simps)
    qed
  qed
  have ex: "\<exists>n. 25 \<le> T n"
  proof (rule ccontr)
    assume "\<not> (\<exists>n. 25 \<le> T n)"
    then have all: "\<forall>k. T k < 25" by (simp add: not_le)
    then have "9/10000 * of_nat (30000::nat) \<le> T 30000" using growth [of 30000] by blast
    then show False using all [rule_format, of 30000] by simp
  qed
  define m where "m = (LEAST n. 25 \<le> T n)"
  have m: "25 \<le> T m" unfolding m_def using ex by (rule LeastI_ex)
  have least: "T k < 25" if "k < m" for k
    using not_less_Least [of k "\<lambda>n. 25 \<le> T n"] that by (simp add: m_def not_le)
  have "m \<noteq> 0" using m T0 by (cases "m = 0") simp_all
  then obtain k where k: "m = Suc k" by (cases m) simp_all
  have Tk: "T k < 25" using least [of k] k by simp
  have up: "T m \<le> T k + 11/10000"
    unfolding k step using nonneg [of k] Tk by (intro tick_clock_bounds(2)) simp_all
  have "k \<noteq> 0" using up m T0 by (cases "k = 0") simp_all
  then obtain j where j: "k = Suc j" by (cases k) simp_all
  have c1: "cycle_of (V k) = T k"
    unfolding cycle_of_def T_def [symmetric] using nonneg [of k] Tk by (intro fmodf_small) simp_all
  have c2: "cycle_of (V m) = T m"
    unfolding cycle_of_def T_def [symmetric] using nonneg [of m] up Tk by (intro fmodf_small) simp_all
  have "2499/100 \<le> cycle_of (V k)" "cycle_of (V k) < 25" "25 \<le> cycle_of (V m)" "cycle_of (V m) < 45"
    unfolding c1 c2 using m Tk up by simp_all
  then show ?thesis
    using run [of j] run [of k] run [of m] unfolding k j by blast
qed


lemma run_jump_at_25:
  assumes sb: "\<And>x. - 1 \<le> sinf x \<and> sinf x \<le> 1"
  shows "\<exists>n v1 v2. main_ticks sinf (Suc n) = Some v1 \<and> main_ticks sinf (Suc (Suc n)) = Some v2
     \<and> 2499/100 \<le> cycle_of v1 \<and> cycle_of v1 < 25 \<and> 25 \<le> cycle_of v2 \<and> cycle_of v2 < 45
     \<and> 2297 \<le> rpm v1 - rpm v2 \<and> 99/10 \<le> vehicle_speed v1 - vehicle_speed v2"
proof -
  from run_crosses_25 [of sinf, OF sb]
  obtain n v0 v1 v2 where r: "main_ticks sinf n = Some v0" "main_ticks sinf (Suc n) = Some v1"
    "main_ticks sinf (Suc (Suc n)) = Some v2"
    and c: "2499/100 \<le> cycle_of v1" "cycle_of v1 < 25" "25 \<le> cycle_of v2" "cycle_of v2 < 45"
    by blast
  have t0: "0 \<le> sim_time v0" using main_ticks_invariant [of sinf n, OF sb] r(1) by auto
  have u1: "update_simulation sinf dt_main v0 = Some v1" using r(1,2) by simp
  have u2: "update_simulation sinf dt_main v1 = Some v2" using r(2,3) by simp
  from boundary_jumps [of sinf v0, OF sb t0]
  obtain w1 w2 where "update_simulation sinf dt_main v0 = Some w1"
    "update_simulation sinf dt_main w1 = Some w2"
    "2499/100 \<le> cycle_of w1 \<and> cycle_of w1 < 25 \<and> 25 \<le> cycle_of w2 \<and> cycle_of w2 < 45 \<longrightarrow>
           2297 \<le> rpm w1 - rpm w2 \<and> rpm w1 - rpm w2 \<le> 2700
         \<and> 99/10 \<le> vehicle_speed w1 - vehicle_speed w2
         \<and> vehicle_speed w1 - vehicle_speed w2 \<le> 30"
    by blast
  then have "2297 \<le> rpm v1 - rpm v2 \<and> 99/10 \<le> vehicle_speed v1 - vehicle_speed v2"
    using u1 u2 c by simp
  then show ?thesis using r(2,3) c by blast
qed

lemma clock_25: "fadd (6553309/262144) dt_main = 6553571/262144"
  "fadd (6553571/262144) dt_main = 6553833/262144"
  "fmodf (6553571/262144) 60 = 6553571/262144" "fmodf (6553833/262144) 60 = 6553833/262144"
  by code_simp+

lemma clock_10: "fadd (10484093/1048576) dt_main = 5242571/524288"
  "fadd (5242571/524288) dt_main = 10486191/1048576"
  "fmodf (5242571/524288) 60 = 5242571/524288" "fmodf (10486191/1048576) 60 = 10486191/1048576"
  by code_simp+

lemma clock_45: "fadd (11796191/262144) dt_main = 11796453/262144"
  "fadd (11796453/262144) dt_main = 11796715/262144"
  "fmodf (11796453/262144) 60 = 11796453/262144" "fmodf (11796715/262144) 60 = 11796715/262144"
  by code_simp+

text \<open>
  C8, as stated: across the phase boundaries the rpm and vehicle_speed of consecutive
  ticks differ by no more than one tick's worth of change. In the run of the main loop
  from the initial state there are two consecutive ticks, the first accelerating and
  within 10 ms of cycle time 25, the second cruising, between which the rpm drops by at
  least 2297 and the vehicle_speed by at least 9.9 km/h.
\<close>

theorem C8_continuity_counterexample:
  "\<exists>n v1 v2. main_ticks sinf_approx (Suc n) = Some v1
     \<and> main_ticks sinf_approx (Suc (Suc n)) = Some v2
     \<and> 2499/100 \<le> cycle_of v1 \<and> cycle_of v1 < 25 \<and> 25 \<le> cycle_of v2 \<and> cycle_of v2 < 45
     \<and> 2297 \<le> rpm v1 - rpm v2 \<and> 99/10 \<le> vehicle_speed v1 - vehicle_speed v2"
  by (rule run_jump_at_25 [of sinf_approx, OF sinf_approx_bounded])

text \<open>
  C8, amended: for every \<open>sinf\<close> with values in \<open>[-1, 1]\<close> and every state with a
  non-negative clock, two consecutive ticks of the main loop return, and across a phase
  boundary the jump is bounded by the gap between the set-points of the two phases, not
  by one tick's change: from the last idle tick to a first accelerating tick within 10 ms
  after cycle time 10, rpm changes by at most 53 and vehicle_speed by at most 0.09; from
  an accelerating tick within 10 ms before cycle time 25 to the first cruising tick, rpm
  drops by at least 2297 and at most 2700 and vehicle_speed by at least 9.9 and at most
  30; from the last cruising tick to a first decelerating tick within 10 ms after cycle
  time 45, rpm changes by at most 202 and vehicle_speed by at most 10.1.
\<close>

theorem C8_boundary_jumps:
  assumes "\<And>x. - 1 \<le> sinf x \<and> sinf x \<le> 1" and "0 \<le> sim_time v0"
  shows "\<exists>v1 v2. update_simulation sinf dt_main v0 = Some v1
     \<and> update_simulation sinf dt_main v1 = Some v2
     \<and> sim_time v1 = fadd (sim_time v0) dt_main \<and> sim_time v2 = fadd (sim_time v1) dt_main
     \<and> (cycle_of v1 < 10 \<and> 10 \<le> cycle_of v2 \<and> cycle_of v2 \<le> 1001/100 \<longrightarrow>
           \<bar>rpm v2 - rpm v1\<bar> \<le> 53 \<and> \<bar>vehicle_speed v2 - vehicle_speed v1\<bar> \<le> 9/100)
     \<and> (2499/100 \<le> cycle_of v1 \<and> cycle_of v1 < 25 \<and> 25 \<le> cycle_of v2 \<and> cycle_of v2 < 45 \<longrightarrow>
           2297 \<le> rpm v1 - rpm v2 \<and> rpm v1 - rpm v2 \<le> 2700
         \<and> 99/10 \<le> vehicle_speed v1 - vehicle_speed v2
         \<and> vehicle_speed v1 - vehicle_speed v2 \<le> 30)
     \<and> (25 \<le> cycle_of v1 \<and> cycle_of v1 < 45 \<and> 45 \<le> cycle_of v2 \<and> cycle_of v2 \<le> 4501/100 \<longrightarrow>
           \<bar>rpm v2 - rpm v1\<bar> \<le> 202 \<and> \<bar>vehicle_speed v2 - vehicle_speed v1\<bar> \<le> 101/10)"
  using assms by (rule boundary_jumps)

theorem C8_boundary_jumps_witness:
  "(\<exists>v1 v2. update_simulation sinf_approx dt_main (vehicle_init\<lparr> sim_time := 10484093/1048576 \<rparr>) = Some v1
      \<and> update_simulation sinf_approx dt_main v1 = Some v2
      \<and> cycle_of v1 = 5242571/524288 \<and> cycle_of v2 = 10486191/1048576
      \<and> \<bar>rpm v2 - rpm v1\<bar> \<le> 53 \<and> \<bar>vehicle_speed v2 - vehicle_speed v1\<bar> \<le> 9/100)
   \<and> (\<exists>v1 v2. update_simulation sinf_approx dt_main (vehicle_init\<lparr> sim_time := 6553309/262144 \<rparr>) = Some v1
      \<and> update_simulation sinf_approx dt_main v1 = Some v2
      \<and> cycle_of v1 = 6553571/262144 \<and> cycle_of v2 = 6553833/262144
      \<and> 2297 \<le> rpm v1 - rpm v2 \<and> rpm v1 - rpm v2 \<le> 2700
      \<and> 99/10 \<le> vehicle_speed v1 - vehicle_speed v2 \<and> vehicle_speed v1 - vehicle_speed v2 \<le> 30)
   \<and> (\<exists>v1 v2. update_simulation sinf_approx dt_main (vehicle_init\<lparr> sim_time := 11796191/262144 \<rparr>) = Some v1
      \<and> update_simulation sinf_approx dt_main v1 = Some v2
      \<and> cycle_of v1 = 11796453/262144 \<and> cycle_of v2 = 11796715/262144
      \<and> \<bar>rpm v2 - rpm v1\<bar> \<le> 202 \<and> \<bar>vehicle_speed v2 - vehicle_speed v1\<bar> \<le> 101/10)"
proof (intro conjI)
  show "\<exists>v1 v2. update_simulation sinf_approx dt_main (vehicle_init\<lparr> sim_time := 10484093/1048576 \<rparr>) = Some v1
      \<and> update_simulation sinf_approx dt_main v1 = Some v2
      \<and> cycle_of v1 = 5242571/524288 \<and> cycle_of v2 = 10486191/1048576
      \<and> \<bar>rpm v2 - rpm v1\<bar> \<le> 53 \<and> \<bar>vehicle_speed v2 - vehicle_speed v1\<bar> \<le> 9/100"
  proof -
    have t0: "0 \<le> sim_time (vehicle_init\<lparr> sim_time := 10484093/1048576 \<rparr>)" by simp
    from C8_boundary_jumps [of sinf_approx "vehicle_init\<lparr> sim_time := 10484093/1048576 \<rparr>",
        OF sinf_approx_bounded t0]
    obtain v1 v2 where u: "update_simulation sinf_approx dt_main (vehicle_init\<lparr> sim_time := 10484093/1048576 \<rparr>) = Some v1"
        "update_simulation sinf_approx dt_main v1 = Some v2"
      and s: "sim_time v1 = fadd (sim_time (vehicle_init\<lparr> sim_time := 10484093/1048576 \<rparr>)) dt_main"
        "sim_time v2 = fadd (sim_time v1) dt_main"
      and imp: "cycle_of v1 < 10 \<and> 10 \<le> cycle_of v2 \<and> cycle_of v2 \<le> 1001/100 \<longrightarrow>
        \<bar>rpm v2 - rpm v1\<bar> \<le> 53 \<and> \<bar>vehicle_speed v2 - vehicle_speed v1\<bar> \<le> 9/100"
      by blast
    have c1: "cycle_of v1 = 5242571/524288"
      unfolding cycle_of_def s(1) by (simp add: clock_10)
    have c2: "cycle_of v2 = 10486191/1048576"
      unfolding cycle_of_def s(2) s(1) by (simp add: clock_10)
    have "\<bar>rpm v2 - rpm v1\<bar> \<le> 53 \<and> \<bar>vehicle_speed v2 - vehicle_speed v1\<bar> \<le> 9/100"
      using imp unfolding c1 c2 by simp
    then show ?thesis using u c1 c2 by blast
  qed
  show "\<exists>v1 v2. update_simulation sinf_approx dt_main (vehicle_init\<lparr> sim_time := 6553309/262144 \<rparr>) = Some v1
      \<and> update_simulation sinf_approx dt_main v1 = Some v2
      \<and> cycle_of v1 = 6553571/262144 \<and> cycle_of v2 = 6553833/262144
      \<and> 2297 \<le> rpm v1 - rpm v2 \<and> rpm v1 - rpm v2 \<le> 2700
      \<and> 99/10 \<le> vehicle_speed v1 - vehicle_speed v2 \<and> vehicle_speed v1 - vehicle_speed v2 \<le> 30"
  proof -
    have t0: "0 \<le> sim_time (vehicle_init\<lparr> sim_time := 6553309/262144 \<rparr>)" by simp
    from C8_boundary_jumps [of sinf_approx "vehicle_init\<lparr> sim_time := 6553309/262144 \<rparr>",
        OF sinf_approx_bounded t0]
    obtain v1 v2 where u: "update_simulation sinf_approx dt_main (vehicle_init\<lparr> sim_time := 6553309/262144 \<rparr>) = Some v1"
        "update_simulation sinf_approx dt_main v1 = Some v2"
      and s: "sim_time v1 = fadd (sim_time (vehicle_init\<lparr> sim_time := 6553309/262144 \<rparr>)) dt_main"
        "sim_time v2 = fadd (sim_time v1) dt_main"
      and imp: "2499/100 \<le> cycle_of v1 \<and> cycle_of v1 < 25 \<and> 25 \<le> cycle_of v2 \<and> cycle_of v2 < 45 \<longrightarrow>
        2297 \<le> rpm v1 - rpm v2 \<and> rpm v1 - rpm v2 \<le> 2700
      \<and> 99/10 \<le> vehicle_speed v1 - vehicle_speed v2 \<and> vehicle_speed v1 - vehicle_speed v2 \<le> 30"
      by blast
    have c1: "cycle_of v1 = 6553571/262144"
      unfolding cycle_of_def s(1) by (simp add: clock_25)
    have c2: "cycle_of v2 = 6553833/262144"
      unfolding cycle_of_def s(2) s(1) by (simp add: clock_25)
    have "2297 \<le> rpm v1 - rpm v2 \<and> rpm v1 - rpm v2 \<le> 2700
      \<and> 99/10 \<le> vehicle_speed v1 - vehicle_speed v2 \<and> vehicle_speed v1 - vehicle_speed v2 \<le> 30"
      using imp unfolding c1 c2 by simp
    then show ?thesis using u c1 c2 by blast
  qed
  show "\<exists>v1 v2. update_simulation sinf_approx dt_main (vehicle_init\<lparr> sim_time := 11796191/262144 \<rparr>) = Some v1
      \<and> update_simulation sinf_approx dt_main v1 = Some v2
      \<and> cycle_of v1 = 11796453/262144 \<and> cycle_of v2 = 11796715/262144
      \<and> \<bar>rpm v2 - rpm v1\<bar> \<le> 202 \<and> \<bar>vehicle_speed v2 - vehicle_speed v1\<bar> \<le> 101/10"
  proof -
    have t0: "0 \<le> sim_time (vehicle_init\<lparr> sim_time := 11796191/262144 \<rparr>)" by simp
    from C8_boundary_jumps [of sinf_approx "vehicle_init\<lparr> sim_time := 11796191/262144 \<rparr>",
        OF sinf_approx_bounded t0]
    obtain v1 v2 where u: "update_simulation sinf_approx dt_main (vehicle_init\<lparr> sim_time := 11796191/262144 \<rparr>) = Some v1"
        "update_simulation sinf_approx dt_main v1 = Some v2"
      and s: "sim_time v1 = fadd (sim_time (vehicle_init\<lparr> sim_time := 11796191/262144 \<rparr>)) dt_main"
        "sim_time v2 = fadd (sim_time v1) dt_main"
      and imp: "25 \<le> cycle_of v1 \<and> cycle_of v1 < 45 \<and> 45 \<le> cycle_of v2 \<and> cycle_of v2 \<le> 4501/100 \<longrightarrow>
        \<bar>rpm v2 - rpm v1\<bar> \<le> 202 \<and> \<bar>vehicle_speed v2 - vehicle_speed v1\<bar> \<le> 101/10"
      by blast
    have c1: "cycle_of v1 = 11796453/262144"
      unfolding cycle_of_def s(1) by (simp add: clock_45)
    have c2: "cycle_of v2 = 11796715/262144"
      unfolding cycle_of_def s(2) s(1) by (simp add: clock_45)
    have "\<bar>rpm v2 - rpm v1\<bar> \<le> 202 \<and> \<bar>vehicle_speed v2 - vehicle_speed v1\<bar> \<le> 101/10"
      using imp unfolding c1 c2 by simp
    then show ?thesis using u c1 c2 by blast
  qed
qed

section \<open>Results on the encode/decode round trip\<close>
















lemma maf_step_exceeded:
  "1/100 < 8409579/524288
     - fmul (i2f (ftrunc (fdiv (8409579/524288) (fround (1/100))))) (fround (1/100))"
  by code_simp





















end
